theory Spec2Isabelle
  imports Complex_Main
begin

section \<open>Numbers, vectors and errors\<close>

text \<open>
  The simulator computes on IEEE doubles and on numpy arrays of two doubles. The model
  computes on exact reals: a 2D array is a pair of reals. Three float effects are kept:
  division by zero, the rounding that decides the tests of \<open>distance_circle_line\<close>
  (a parameter of its model), and the conversion to a 64-bit integer in \<open>to_indices\<close>.
  Under numba a scalar division by zero raises
  ZeroDivisionError and an array divided by a zero scalar gets inf or NaN components.
  The model stops at the first division by zero that the source executes, with the
  error value \<open>DivisionByZero\<close>: a result \<open>Inr\<close> is a run in which every quotient was a
  finite real. A NaN that the source uses on purpose (the initial \<open>h_min = np.nan\<close>) is
  the value \<open>None\<close> of an option. An index outside an array is \<open>IndexError\<close>, an empty
  or ill-shaped array where numpy refuses one is \<open>ValueError\<close>, and the exception of
  \<open>random_position\<close> is \<open>IterationLimit\<close> with the number of its message.
\<close>

type_synonym vec = "real \<times> real"

datatype error = DivisionByZero | IndexError | ValueError | IterationLimit nat

text \<open>
  Modelled from the spec: the module \<open>crowddynamics.core.vector\<close> (\<open>length\<close>, \<open>dot\<close>,
  \<open>cross2d\<close>, \<open>rotate90\<close>, \<open>rotate270\<close>) is imported by the sources but is not among
  them; section 4.1 of the specification fixes each function. The array arithmetic of
  numpy (\<open>+\<close>, \<open>-\<close>, scalar \<open>*\<close>, \<open>/\<close>) is written \<open>vadd\<close>, \<open>vsub\<close>, \<open>smul\<close>, \<open>vdiv\<close>.
\<close>

definition vadd :: "vec \<Rightarrow> vec \<Rightarrow> vec" where
  "vadd a b = (fst a + fst b, snd a + snd b)"

definition vsub :: "vec \<Rightarrow> vec \<Rightarrow> vec" where
  "vsub a b = (fst a - fst b, snd a - snd b)"

definition smul :: "real \<Rightarrow> vec \<Rightarrow> vec" where
  "smul c a = (c * fst a, c * snd a)"

definition vneg :: "vec \<Rightarrow> vec" where
  "vneg a = (- fst a, - snd a)"

definition vzero :: vec where
  "vzero = (0, 0)"

definition dot :: "vec \<Rightarrow> vec \<Rightarrow> real" where
  "dot a b = fst a * fst b + snd a * snd b"

definition cross2d :: "vec \<Rightarrow> vec \<Rightarrow> real" where
  "cross2d a b = fst a * snd b - snd a * fst b"

definition length_v :: "vec \<Rightarrow> real" where
  "length_v a = sqrt (fst a * fst a + snd a * snd a)"

definition rotate90 :: "vec \<Rightarrow> vec" where
  "rotate90 a = (- snd a, fst a)"

definition rotate270 :: "vec \<Rightarrow> vec" where
  "rotate270 a = (snd a, - fst a)"

text \<open>
  \<open>a / d\<close> for an array \<open>a\<close> and a scalar \<open>d\<close>: \<open>vdivs\<close> where the source has tested
  \<open>d\<close> (or the model has, on the line before), \<open>vdiv\<close> where nothing has.
\<close>

definition vdivs :: "vec \<Rightarrow> real \<Rightarrow> vec" where
  "vdivs a d = (fst a / d, snd a / d)"

definition vdiv :: "vec \<Rightarrow> real \<Rightarrow> error + vec" where
  "vdiv a d = (if d = 0 then Inl DivisionByZero else Inr (vdivs a d))"

section \<open>Geometry kernels (core/interactions/distance.py)\<close>

text \<open>
  \<open>distance_circle_circle\<close> tests \<open>d == 0.0\<close> before dividing, so it has no error
  branch.
\<close>

definition distance_circle_circle :: "vec \<Rightarrow> real \<Rightarrow> vec \<Rightarrow> real \<Rightarrow> real \<times> vec" where
  "distance_circle_circle x0 r0 x1 r1 =
     (let x = vsub x0 x1;
          d = length_v x;
          r_tot = r0 + r1;
          h = d - r_tot;
          n = (if d = 0 then vzero else vdivs x d)
      in (h, n))"

text \<open>
  The tuples of three positions and three radii (torso, left shoulder, right shoulder),
  and the loop \<open>for i, (xi, ri) in enumerate(zip(x0, r0))\<close> over them.
\<close>

type_synonym vec3 = "vec \<times> vec \<times> vec"
type_synonym real3 = "real \<times> real \<times> real"

definition list3 :: "'a \<times> 'a \<times> 'a \<Rightarrow> 'a list" where
  "list3 t = [fst t, fst (snd t), snd (snd t)]"

definition enum_zip :: "vec3 \<Rightarrow> real3 \<Rightarrow> (nat \<times> vec \<times> real) list" where
  "enum_zip x r = enumerate 0 (zip (list3 x) (list3 r))"

text \<open>\<open>h < h_min or np.isnan(h_min)\<close>: a comparison with NaN is false.\<close>

definition less_or_nan :: "real \<Rightarrow> real option \<Rightarrow> bool" where
  "less_or_nan h h_min = (case h_min of None \<Rightarrow> True | Some m \<Rightarrow> h < m)"

type_synonym min_state = "real option \<times> vec \<times> nat \<times> nat"

definition three_circle_step ::
    "nat \<times> vec \<times> real \<Rightarrow> nat \<times> vec \<times> real \<Rightarrow> min_state \<Rightarrow> min_state" where
  "three_circle_step a b s =
     (case a of (i, xi, ri) \<Rightarrow> case b of (j, xj, rj) \<Rightarrow>
      case s of (h_min, normal, i_min, j_min) \<Rightarrow>
        (let (h, n) = distance_circle_circle xi ri xj rj in
         if less_or_nan h h_min then (Some h, n, i, j) else (h_min, normal, i_min, j_min)))"

definition three_circle_loop :: "vec3 \<Rightarrow> real3 \<Rightarrow> vec3 \<Rightarrow> real3 \<Rightarrow> min_state" where
  "three_circle_loop x0 r0 x1 r1 =
     fold (\<lambda>a s. fold (three_circle_step a) (enum_zip x1 r1) s) (enum_zip x0 r0)
       (None, vzero, 0, 0)"

definition distance_three_circle ::
    "vec3 \<Rightarrow> real3 \<Rightarrow> vec3 \<Rightarrow> real3 \<Rightarrow> real option \<times> vec \<times> vec \<times> vec" where
  "distance_three_circle x0 r0 x1 r1 =
     (case three_circle_loop x0 r0 x1 r1 of (h_min, normal, i_min, j_min) \<Rightarrow>
        (let r_moment0 = vsub (vadd (list3 x0 ! i_min) (smul (list3 r0 ! i_min) normal)) (fst x0);
             r_moment1 = vsub (vsub (list3 x0 ! j_min) (smul (list3 r1 ! j_min) normal)) (fst x1)
         in (h_min, normal, r_moment0, r_moment1)))"

text \<open>
  \<open>distance_circle_line\<close> divides twice without a test: by the length of the segment
  and by the distance to an end point. Its tests \<open>l_t > l_w\<close> and \<open>l_t < -l_w\<close> compare
  two doubles that were both rounded: \<open>l_w\<close> is a rounded square root and \<open>l_t\<close> a
  difference of two rounded dot products with the rounded quotient \<open>t_w\<close>. For a query
  point abeam of an end point (or on it) the exact values are equal and the rounding
  decides the branch. The model therefore carries the rounding error of \<open>l_t\<close> relative
  to \<open>l_w\<close> as the parameter \<open>err\<close>: the computed \<open>l_t\<close> is the exact value plus \<open>err\<close>.
  The vector \<open>q[0] = x - p[0]\<close> is computed without error when \<open>x\<close> is \<open>p[0]\<close>, and
  its length is then the double 0.
\<close>

definition distance_circle_line_rounded ::
    "real \<Rightarrow> vec \<Rightarrow> real \<Rightarrow> vec \<times> vec \<Rightarrow> error + (real \<times> vec)" where
  "distance_circle_line_rounded err x r p =
     (let d = vsub (snd p) (fst p);
          l_w = length_v d
      in case vdiv d l_w of
           Inl e \<Rightarrow> Inl e
         | Inr t_w \<Rightarrow>
             (let n_w = rotate90 t_w;
                  q0 = vsub x (fst p);
                  q1 = vsub x (snd p);
                  l_t = - dot t_w q1 - dot t_w q0 + err
              in if l_t > l_w then
                   (let d_iw = length_v q0
                    in case vdiv q0 d_iw of
                         Inl e \<Rightarrow> Inl e
                       | Inr n_iw \<Rightarrow> Inr (d_iw - r, n_iw))
                 else if l_t < - l_w then
                   (let d_iw = length_v q1
                    in case vdiv q1 d_iw of
                         Inl e \<Rightarrow> Inl e
                       | Inr n_iw \<Rightarrow> Inr (d_iw - r, n_iw))
                 else
                   (let l_n = dot n_w q0;
                        d_iw = \<bar>l_n\<bar>;
                        n_iw = smul (sgn l_n) n_w
                    in Inr (d_iw - r, n_iw))))"

text \<open>
  The call in which the rounding does not change a test: this is what the doubles give
  at every query point whose exact \<open>l_t\<close> is farther from \<open>l_w\<close> and from \<open>-l_w\<close> than
  the rounding error.
\<close>

definition distance_circle_line :: "vec \<Rightarrow> real \<Rightarrow> vec \<times> vec \<Rightarrow> error + (real \<times> vec)" where
  "distance_circle_line x r p = distance_circle_line_rounded 0 x r p"

section \<open>The power-law social force (source/core/force_agents.py)\<close>

text \<open>
  \<open>f_soc_ij\<close> tests \<open>d < 0\<close> and \<open>-0.001 < a < 0.001\<close>, then \<open>tau < 0 or tau > tau_max\<close>.
  After these tests it divides by \<open>a\<close> (not zero there), by \<open>a * tau ** m\<close>, by \<open>tau\<close>,
  by \<open>tau_0\<close>, by the square root \<open>d\<close> and, when it clamps, by \<open>mag\<close>; each of these can be
  zero except \<open>a\<close>. \<open>np.hypot\<close> is \<open>length_v\<close>.
\<close>

definition f_soc_ij :: "vec \<Rightarrow> vec \<Rightarrow> real \<Rightarrow> real \<Rightarrow> real \<Rightarrow> real \<Rightarrow> error + vec" where
  "f_soc_ij x_ij v_ij r_ij k tau_0 f_max =
     (let force = vzero;
          a = dot v_ij v_ij;
          b = - dot x_ij v_ij;
          c = dot x_ij x_ij - r_ij ^ 2;
          d = b ^ 2 - a * c
      in if d < 0 \<or> (- (1 / 1000) < a \<and> a < 1 / 1000) then Inr force
         else
           (let d = sqrt d;
                tau = (b - d) / a;
                tau_max = 999
            in if tau < 0 \<or> tau > tau_max then Inr force
               else if tau = 0 \<or> tau_0 = 0 \<or> d = 0 then Inl DivisionByZero
               else
                 (let m = 2;
                      force = vsub force
                        (smul (k / (a * tau ^ 2) * exp (- tau / tau_0) * (m / tau + 1 / tau_0))
                           (vsub v_ij (vdivs (vadd (smul b v_ij) (smul a x_ij)) d)));
                      mag = length_v force
                  in if mag > f_max then
                       (if mag = 0 then Inl DivisionByZero else Inr (smul (f_max / mag) force))
                     else Inr force)))"

section \<open>The agent store\<close>

text \<open>
  A neighbour distance is a double that is finite or \<open>+inf\<close> (an empty slot of the
  k-nearest buffer).
\<close>

datatype xreal = Fin real | PInf

fun xless :: "xreal \<Rightarrow> xreal \<Rightarrow> bool" where
  "xless (Fin a) (Fin b) = (a < b)"
| "xless (Fin a) PInf = True"
| "xless PInf b = False"

text \<open>
  \<open>np.argmax\<close> returns the first index of the maximum, \<open>np.max\<close> the maximum; both
  raise ValueError on an empty array.
\<close>

fun argmax_from :: "nat \<Rightarrow> xreal \<Rightarrow> nat \<Rightarrow> xreal list \<Rightarrow> nat" where
  "argmax_from bi bv k [] = bi"
| "argmax_from bi bv k (x # xs) =
     (if xless bv x then argmax_from k x (Suc k) xs else argmax_from bi bv (Suc k) xs)"

fun max_from :: "xreal \<Rightarrow> xreal list \<Rightarrow> xreal" where
  "max_from bv [] = bv"
| "max_from bv (x # xs) = (if xless bv x then max_from x xs else max_from bv xs)"

definition np_argmax :: "xreal list \<Rightarrow> error + nat" where
  "np_argmax xs = (case xs of [] \<Rightarrow> Inl ValueError | x # rest \<Rightarrow> Inr (argmax_from 0 x 1 rest))"

definition np_max :: "xreal list \<Rightarrow> error + xreal" where
  "np_max xs = (case xs of [] \<Rightarrow> Inl ValueError | x # rest \<Rightarrow> Inr (max_from x rest))"

text \<open>
  The agent object of \<open>core/interactions.py\<close> and \<open>multiagent/algorithms.py\<close>: one list
  per per-agent array, one value per population-wide attribute. Its class is not among
  the sources; the fields are those the two modules read and write.
\<close>

record agent =
  size :: nat
  active :: "bool list"
  three_circle :: bool
  orientable :: bool
  mass :: "real list"
  radius :: "real list"
  r_t :: "real list"
  r_s :: "real list"
  position :: "vec list"
  position_ls :: "vec list"
  position_rs :: "vec list"
  velocity :: "vec list"
  target_velocity :: "real list"
  target_direction :: "vec list"
  force :: "vec list"
  inertia_rot :: "real list"
  angle :: "real list"
  target_angle :: "real list"
  angular_velocity :: "real list"
  torque :: "real list"
  tau_adj :: real
  tau_rot :: real
  mu :: real
  kappa :: real
  damping :: real
  std_rand_force :: real
  std_rand_torque :: real
  sight_soc :: real
  sight_wall :: real
  neighbor_radius :: real
  neighbors :: "nat list list"
  neighbor_distances :: "xreal list list"
  neighbor_distances_max :: "xreal list"

text \<open>Every per-agent array has one row per agent.\<close>

definition wf_agent :: "agent \<Rightarrow> bool" where
  "wf_agent a \<longleftrightarrow>
     length (active a) = size a \<and> length (mass a) = size a \<and> length (radius a) = size a \<and>
     length (r_t a) = size a \<and> length (r_s a) = size a \<and> length (position a) = size a \<and>
     length (position_ls a) = size a \<and> length (position_rs a) = size a \<and>
     length (velocity a) = size a \<and> length (target_velocity a) = size a \<and>
     length (target_direction a) = size a \<and> length (force a) = size a \<and>
     length (inertia_rot a) = size a \<and> length (angle a) = size a \<and>
     length (target_angle a) = size a \<and> length (angular_velocity a) = size a \<and>
     length (torque a) = size a \<and> length (neighbors a) = size a \<and>
     length (neighbor_distances a) = size a \<and> length (neighbor_distances_max a) = size a"

text \<open>
  Modelled from the spec: \<open>agent.indices()\<close> is a method of the missing agent class;
  section 3.1 says the active indices are enumerated in ascending order.
\<close>

definition indices :: "agent \<Rightarrow> nat list" where
  "indices a = filter (\<lambda>i. active a ! i) [0..<size a]"

section \<open>The interaction driver (core/interactions.py)\<close>

definition force_contact :: "real \<Rightarrow> vec \<Rightarrow> vec \<Rightarrow> vec \<Rightarrow> real \<Rightarrow> real \<Rightarrow> real \<Rightarrow> vec" where
  "force_contact h n v t mu' kappa' damping' =
     vadd (smul (- h) (vsub (smul mu' n) (smul (kappa' * dot v t) t)))
          (smul (damping' * dot v n) n)"

text \<open>A loop whose body can fail stops at the first failure.\<close>

fun fold_err :: "('a \<Rightarrow> 's \<Rightarrow> error + 's) \<Rightarrow> 'a list \<Rightarrow> 's \<Rightarrow> error + 's" where
  "fold_err f [] s = Inr s"
| "fold_err f (x # xs) s = (case f x s of Inl e \<Rightarrow> Inl e | Inr s' \<Rightarrow> fold_err f xs s')"

text \<open>
  \<open>agent_agent_distance_three_circle\<close>: the state of the double loop is
  (\<open>relative_distance\<close>, \<open>radius\<close>, \<open>normal\<close>, \<open>positions\<close>). Unlike
  \<open>distance_circle_circle\<close> the loop body divides \<open>x / d\<close> without testing \<open>d\<close>.
\<close>

type_synonym pair_state = "real option \<times> (real \<times> real) \<times> vec \<times> (vec \<times> vec)"

definition pair_step :: "(vec \<times> real) \<times> (vec \<times> real) \<Rightarrow> pair_state \<Rightarrow> error + pair_state" where
  "pair_step ab s =
     (case ab of ((xi, ri), (xj, rj)) \<Rightarrow>
      case s of (relative_distance, radius', normal, positions) \<Rightarrow>
        (let x = vsub xi xj;
             d = length_v x;
             r_tot = ri + rj;
             h = d - r_tot
         in if less_or_nan h relative_distance then
              (case vdiv x d of
                 Inl e \<Rightarrow> Inl e
               | Inr n \<Rightarrow> Inr (Some h, (ri, rj), n, (xi, xj)))
            else Inr s))"

definition agent_agent_distance_three_circle ::
    "agent \<Rightarrow> nat \<Rightarrow> nat \<Rightarrow> error + (vec \<times> real option \<times> vec \<times> vec)" where
  "agent_agent_distance_three_circle a i j =
     (let x_i = [position a ! i, position_ls a ! i, position_rs a ! i];
          x_j = [position a ! j, position_ls a ! j, position_rs a ! j];
          r_i = [r_t a ! i, r_s a ! i, r_s a ! i];
          r_j = [r_t a ! j, r_s a ! j, r_s a ! j]
      in case fold_err pair_step (List.product (zip x_i r_i) (zip x_j r_j))
                (None, (0, 0), vzero, (vzero, vzero)) of
           Inl e \<Rightarrow> Inl e
         | Inr (relative_distance, radius', normal, positions) \<Rightarrow>
             (let r_moment_i = vsub (vadd (fst positions) (smul (fst radius') normal)) (position a ! i);
                  r_moment_j = vsub (vsub (snd positions) (smul (snd radius') normal)) (position a ! j)
              in Inr (normal, relative_distance, r_moment_i, r_moment_j)))"

text \<open>\<open>h < c\<close> for an \<open>h\<close> that may be NaN.\<close>

definition nan_less :: "real option \<Rightarrow> real \<Rightarrow> bool" where
  "nan_less h c = (case h of None \<Rightarrow> False | Some v \<Rightarrow> v < c)"

text \<open>
  The social kernels \<open>force_social_circular\<close> and \<open>force_social_three_circle\<close> come from
  the module \<open>power_law\<close>, which is not among the sources. The driver takes them as
  parameters: a kernel returns the pair (\<open>force_i\<close>, \<open>force_j\<close>) or fails.
\<close>

type_synonym kernel = "agent \<Rightarrow> nat \<Rightarrow> nat \<Rightarrow> error + (vec \<times> vec)"

text \<open>
  Lines 118 to 127 of \<open>agent_agent_interaction\<close>: the branch on the body model gives
  (\<open>force_i\<close>, \<open>force_j\<close>, \<open>r_moment_i\<close>, \<open>r_moment_j\<close>, \<open>n\<close>, \<open>h\<close>).
\<close>

definition pair_model ::
    "kernel \<Rightarrow> kernel \<Rightarrow> nat \<Rightarrow> nat \<Rightarrow> agent \<Rightarrow>
     error + (vec \<times> vec \<times> vec \<times> vec \<times> vec \<times> real option)" where
  "pair_model force_social_circular force_social_three_circle i j a =
     (let x = vsub (position a ! i) (position a ! j);
          d = length_v x;
          h = d - (radius a ! i + radius a ! j)
      in if three_circle a then
           (case agent_agent_distance_three_circle a i j of
              Inl e \<Rightarrow> Inl e
            | Inr (n, h', r_moment_i, r_moment_j) \<Rightarrow>
                (case force_social_three_circle a i j of
                   Inl e \<Rightarrow> Inl e
                 | Inr (force_i, force_j) \<Rightarrow>
                     Inr (force_i, force_j, r_moment_i, r_moment_j, n, h')))
         else
           (case force_social_circular a i j of
              Inl e \<Rightarrow> Inl e
            | Inr (force_i, force_j) \<Rightarrow>
                (case vdiv x d of
                   Inl e \<Rightarrow> Inl e
                 | Inr n \<Rightarrow> Inr (force_i, force_j, vzero, vzero, n, Some h))))"

text \<open>
  Lines 129 to 142: contact force when \<open>h < 0\<close>, then the accumulation into \<open>force\<close>
  and, for an orientable agent, \<open>torque\<close>. The four writes happen in the source's order.
\<close>

definition accumulate ::
    "nat \<Rightarrow> nat \<Rightarrow> agent \<Rightarrow> vec \<times> vec \<times> vec \<times> vec \<times> vec \<times> real option \<Rightarrow> agent" where
  "accumulate i j a m =
     (case m of (force_i0, force_j0, r_moment_i, r_moment_j, n, h) \<Rightarrow>
        (let t = rotate270 n;
             v = vsub (velocity a ! i) (velocity a ! j);
             force_c = (case h of None \<Rightarrow> vzero
                        | Some hv \<Rightarrow> force_contact hv n v t (mu a) (kappa a) (damping a));
             force_i = (if nan_less h 0 then vadd force_i0 force_c else force_i0);
             force_j = (if nan_less h 0 then vsub force_j0 force_c else force_j0);
             f1 = (force a)[i := vadd (force a ! i) force_i];
             f2 = f1[j := vadd (f1 ! j) force_j];
             t1 = (torque a)[i := torque a ! i + cross2d r_moment_i force_i];
             t2 = t1[j := t1 ! j + cross2d r_moment_j force_j]
         in if orientable a then a\<lparr>force := f2, torque := t2\<rparr> else a\<lparr>force := f2\<rparr>))"

text \<open>
  Lines 145 to 150 (and 152 to 157 with the roles swapped): the insertion of neighbour
  \<open>j\<close> at distance \<open>h\<close> into the buffer of agent \<open>k\<close>.
\<close>

definition neighbor_insert :: "nat \<Rightarrow> nat \<Rightarrow> real \<Rightarrow> agent \<Rightarrow> error + agent" where
  "neighbor_insert k j h a =
     (if xless (Fin h) (neighbor_distances_max a ! k) then
        (case np_argmax (neighbor_distances a ! k) of
           Inl e \<Rightarrow> Inl e
         | Inr ind \<Rightarrow>
             (let nb = (neighbors a)[k := (neighbors a ! k)[ind := j]];
                  nd = (neighbor_distances a)[k := (neighbor_distances a ! k)[ind := Fin h]]
              in case np_max (nd ! k) of
                   Inl e \<Rightarrow> Inl e
                 | Inr mx \<Rightarrow>
                     Inr (a\<lparr>neighbors := nb, neighbor_distances := nd,
                            neighbor_distances_max := (neighbor_distances_max a)[k := mx]\<rparr>)))
      else Inr a)"

text \<open>Lines 144 to 157: the neighbour block, outside the sight test.\<close>

definition neighbor_block :: "nat \<Rightarrow> nat \<Rightarrow> real option \<Rightarrow> agent \<Rightarrow> error + agent" where
  "neighbor_block i j h a =
     (case h of
        None \<Rightarrow> Inr a
      | Some hv \<Rightarrow>
          if neighbor_radius a > 0 \<and> hv < neighbor_radius a then
            (case neighbor_insert i j hv a of
               Inl e \<Rightarrow> Inl e
             | Inr a' \<Rightarrow> neighbor_insert j i hv a')
          else Inr a)"

definition agent_agent_interaction ::
    "kernel \<Rightarrow> kernel \<Rightarrow> nat \<Rightarrow> nat \<Rightarrow> agent \<Rightarrow> error + agent" where
  "agent_agent_interaction force_social_circular force_social_three_circle i j a =
     (if \<not> (i < size a \<and> j < size a) then Inl IndexError
      else
        (let x = vsub (position a ! i) (position a ! j);
             d = length_v x;
             r_tot = radius a ! i + radius a ! j;
             h = d - r_tot
         in if d \<le> sight_soc a then
              (case pair_model force_social_circular force_social_three_circle i j a of
                 Inl e \<Rightarrow> Inl e
               | Inr (force_i, force_j, r_moment_i, r_moment_j, n, h') \<Rightarrow>
                   neighbor_block i j h'
                     (accumulate i j a (force_i, force_j, r_moment_i, r_moment_j, n, h')))
            else neighbor_block i j (Some h) a))"

section \<open>Agents and walls (core/interactions.py)\<close>

text \<open>
  Modelled from the spec: \<open>wall.size\<close> and \<open>wall.distance_with_normal(w, x)\<close> belong to
  the wall class of this version, which is not among the sources. Section 4.2 gives the
  distance and the normal between a point and a segment by \<open>distance_circle_line\<close>, here
  with radius 0; an index outside the array raises IndexError, as \<open>deconstruct\<close> does
  in \<open>source/field/wall.py\<close>.
\<close>

type_synonym segments = "(vec \<times> vec) list"

definition distance_with_normal :: "segments \<Rightarrow> nat \<Rightarrow> vec \<Rightarrow> error + (real \<times> vec)" where
  "distance_with_normal wall w x =
     (if w < length wall then distance_circle_line x 0 (wall ! w) else Inl IndexError)"

text \<open>
  \<open>agent_wall_distance\<close>: the loop state is (\<open>relative_distance\<close>, \<open>position\<close>,
  \<open>normal\<close>, \<open>radius\<close>).
\<close>

type_synonym wall_state = "real option \<times> vec \<times> vec \<times> real"

definition wall_step :: "segments \<Rightarrow> nat \<Rightarrow> vec \<times> real \<Rightarrow> wall_state \<Rightarrow> error + wall_state" where
  "wall_step wall w xr s =
     (case xr of (xi, ri) \<Rightarrow>
      case s of (relative_distance, position', normal, radius') \<Rightarrow>
        (case distance_with_normal wall w xi of
           Inl e \<Rightarrow> Inl e
         | Inr (d, n) \<Rightarrow>
             (let h = d - ri
              in if less_or_nan h relative_distance then Inr (Some h, xi, n, ri) else Inr s)))"

definition agent_wall_distance ::
    "agent \<Rightarrow> segments \<Rightarrow> nat \<Rightarrow> nat \<Rightarrow> error + (real option \<times> vec \<times> vec)" where
  "agent_wall_distance a wall i w =
     (let x_i = [position a ! i, position_ls a ! i, position_rs a ! i];
          r_i = [r_t a ! i, r_s a ! i, r_s a ! i]
      in case fold_err (wall_step wall w) (zip x_i r_i) (None, vzero, vzero, 0) of
           Inl e \<Rightarrow> Inl e
         | Inr (relative_distance, position', normal, radius') \<Rightarrow>
             (let r_moment_i = vsub (vsub position' (smul radius' normal)) (position a ! i)
              in Inr (relative_distance, normal, r_moment_i)))"

text \<open>
  \<open>force_social_linear_wall\<close> comes from the missing module \<open>power_law\<close> too and is a
  parameter of \<open>agent_wall_interaction\<close>.
\<close>

type_synonym wall_kernel = "nat \<Rightarrow> nat \<Rightarrow> agent \<Rightarrow> segments \<Rightarrow> error + vec"

text \<open>
  Lines 169 to 176: the branch on the body model gives (\<open>h\<close>, \<open>n\<close>, \<open>r_moment_i\<close>,
  \<open>force\<close>). In the three-circle branch \<open>r_moment_i\<close> is assigned twice: the result of
  \<open>agent_wall_distance\<close>, then \<open>np.zeros(2)\<close>.
\<close>

definition wall_model ::
    "wall_kernel \<Rightarrow> nat \<Rightarrow> nat \<Rightarrow> agent \<Rightarrow> segments \<Rightarrow> real \<Rightarrow> vec \<Rightarrow>
     error + (real option \<times> vec \<times> vec \<times> vec)" where
  "wall_model force_social_linear_wall i w a wall h n =
     (if three_circle a then
        (case agent_wall_distance a wall i w of
           Inl e \<Rightarrow> Inl e
         | Inr (h', n', r_moment_i) \<Rightarrow>
             (let r_moment_i = vzero
              in case force_social_linear_wall i w a wall of
                   Inl e \<Rightarrow> Inl e
                 | Inr force' \<Rightarrow> Inr (h', n', r_moment_i, force')))
      else
        (let r_moment_i = vzero
         in case force_social_linear_wall i w a wall of
              Inl e \<Rightarrow> Inl e
            | Inr force' \<Rightarrow> Inr (Some h, n, r_moment_i, force')))"

definition agent_wall_interaction ::
    "wall_kernel \<Rightarrow> nat \<Rightarrow> nat \<Rightarrow> agent \<Rightarrow> segments \<Rightarrow> error + agent" where
  "agent_wall_interaction force_social_linear_wall i w a wall =
     (if \<not> i < size a then Inl IndexError
      else
        (let x = position a ! i;
             r_tot = radius a ! i
         in case distance_with_normal wall w x of
              Inl e \<Rightarrow> Inl e
            | Inr (d, n) \<Rightarrow>
                (let h = d - r_tot
                 in if h \<le> sight_wall a then
                      (case wall_model force_social_linear_wall i w a wall h n of
                         Inl e \<Rightarrow> Inl e
                       | Inr (h1, n1, r_moment_i, force0) \<Rightarrow>
                           (let t = rotate270 n1;
                                force_c = (case h1 of None \<Rightarrow> vzero
                                           | Some hv \<Rightarrow> force_contact hv n1 (velocity a ! i) t
                                               (mu a) (kappa a) (damping a));
                                force1 = (if nan_less h1 0 then vadd force0 force_c else force0);
                                f1 = (force a)[i := vadd (force a ! i) force1];
                                t1 = (torque a)[i := torque a ! i + cross2d r_moment_i force1]
                            in if orientable a then Inr (a\<lparr>force := f1, torque := t1\<rparr>)
                               else Inr (a\<lparr>force := f1\<rparr>)))
                    else Inr a)))"

text \<open>
  The wall kernel used to run the driver on a concrete input. Modelled from the spec:
  section 4.4 says that the per-wall social law is the Helbing exponential, which
  \<open>core/motion/force.py\<close> defines as \<open>force_social_helbing\<close> with the constants
  \<open>A = 2000\<close> and \<open>B = 0.08\<close> of its docstring.
\<close>

definition force_social_helbing :: "real \<Rightarrow> vec \<Rightarrow> real \<Rightarrow> real \<Rightarrow> error + vec" where
  "force_social_helbing h n a b =
     (if b = 0 then Inl DivisionByZero else Inr (smul (a * exp (- h / b)) n))"

definition helbing_wall_kernel :: wall_kernel where
  "helbing_wall_kernel i w a wall =
     (case distance_with_normal wall w (position a ! i) of
        Inl e \<Rightarrow> Inl e
      | Inr (d, n) \<Rightarrow> force_social_helbing (d - radius a ! i) n 2000 (8 / 100))"

text \<open>
  The agent kernel used to run the driver on a concrete input. Modelled from the spec:
  section 4.3 says that the anticipatory force acts on \<open>i\<close> and that the partner gets
  \<open>-f\<close>; the force itself is \<open>f_soc_ij\<close> of \<open>source/core/force_agents.py\<close>, with the
  default constants of \<open>core/agent/agents.py\<close> (\<open>k_soc = 1.5\<close>, \<open>tau_0 = 3\<close>,
  \<open>f_soc_ij_max = 2000\<close>).
\<close>

definition power_law_kernel :: kernel where
  "power_law_kernel a i j =
     (case f_soc_ij (vsub (position a ! i) (position a ! j))
             (vsub (velocity a ! i) (velocity a ! j))
             (radius a ! i + radius a ! j) (3 / 2) 3 2000 of
        Inl e \<Rightarrow> Inl e
      | Inr f \<Rightarrow> Inr (f, vneg f))"

section \<open>Simulation phases (multiagent/algorithms.py)\<close>

text \<open>
  \<open>a[i] = v\<close> for an index array \<open>i\<close>: the shapes must agree (ValueError) and every
  index must be in range (IndexError); later writes win.
\<close>

definition assign_at :: "'a list \<Rightarrow> nat list \<Rightarrow> 'a list \<Rightarrow> error + 'a list" where
  "assign_at xs ind vs =
     (if length vs \<noteq> length ind then Inl ValueError
      else if list_ex (\<lambda>i. length xs \<le> i) ind then Inl IndexError
      else Inr (fold (\<lambda>iv ys. ys[fst iv := snd iv]) (zip ind vs) xs))"

definition take_at :: "'a list \<Rightarrow> nat list \<Rightarrow> 'a list" where
  "take_at xs ind = map (\<lambda>i. xs ! i) ind"

text \<open>
  \<open>force_fluctuation\<close> of \<open>core/motion/force.py\<close>: the draws of \<open>truncnorm.rvs\<close> and
  \<open>np.random.uniform\<close>, one per entry of \<open>mass\<close>, are the parameters \<open>magnitude\<close> and
  \<open>angle\<close> (draw number \<open>k\<close> is \<open>magnitude k\<close>).
\<close>

definition force_fluctuation :: "(nat \<Rightarrow> real) \<Rightarrow> (nat \<Rightarrow> real) \<Rightarrow> real list \<Rightarrow> vec list" where
  "force_fluctuation magnitude angle' mass' =
     map (\<lambda>k. smul (mass' ! k) (magnitude k * cos (angle' k), magnitude k * sin (angle' k)))
       [0..<length mass']"

definition force_adjust :: "real list \<Rightarrow> real \<Rightarrow> real list \<Rightarrow> vec list \<Rightarrow> vec list \<Rightarrow> error + vec list" where
  "force_adjust mass' tau_adj' v0 e0 v =
     (if tau_adj' = 0 then Inl DivisionByZero
      else Inr (map (\<lambda>k. smul (mass' ! k / tau_adj') (vsub (smul (v0 ! k) (e0 ! k)) (v ! k)))
                  [0..<length mass']))"

text \<open>
  \<open>torque_fluctuation\<close> and \<open>torque_adjust\<close> are imported from \<open>core.motion\<close> but are not
  among the sources: both are parameters, with the arguments the phases pass.
\<close>

definition Fluctuation_update ::
    "(nat \<Rightarrow> real) \<Rightarrow> (nat \<Rightarrow> real) \<Rightarrow> (real list \<Rightarrow> real \<Rightarrow> real list) \<Rightarrow> agent \<Rightarrow> error + agent" where
  "Fluctuation_update magnitude angle' torque_fluctuation a =
     (let i = indices a
      in case assign_at (force a) i (force_fluctuation magnitude angle' (take_at (mass a) i)) of
           Inl e \<Rightarrow> Inl e
         | Inr f \<Rightarrow>
             if orientable a then
               (case assign_at (torque a) i
                       (torque_fluctuation (take_at (inertia_rot a) i) (std_rand_torque a)) of
                  Inl e \<Rightarrow> Inl e
                | Inr t \<Rightarrow> Inr (a\<lparr>force := f, torque := t\<rparr>))
             else Inr (a\<lparr>force := f\<rparr>))"

text \<open>
  \<open>indices\<close> is a method of the agent: \<open>Fluctuation.update\<close> (line 52),
  \<open>Navigation.update\<close> (line 152) and \<open>core/interactions.py\<close> (lines 21 and 29) call it,
  \<open>agent.indices()\<close>. Line 69 of \<open>Adjusting.update\<close> reads the attribute and does not
  call it, \<open>i = agent.indices\<close>, so there \<open>i\<close> is the bound method and not an array of
  indices. A value used as a subscript is one or the other; numpy raises IndexError
  for a subscript that is not an integer, a slice or an array of integers or booleans.
\<close>

datatype subscript = Bound_method | Index_array "nat list"

definition getitem :: "'a list \<Rightarrow> subscript \<Rightarrow> error + 'a list" where
  "getitem xs i =
     (case i of
        Bound_method \<Rightarrow> Inl IndexError
      | Index_array ind \<Rightarrow>
          if list_ex (\<lambda>k. length xs \<le> k) ind then Inl IndexError else Inr (take_at xs ind))"

definition setitem :: "'a list \<Rightarrow> subscript \<Rightarrow> 'a list \<Rightarrow> error + 'a list" where
  "setitem xs i vs =
     (case i of
        Bound_method \<Rightarrow> Inl IndexError
      | Index_array ind \<Rightarrow> assign_at xs ind vs)"

text \<open>
  Lines 71 to 82 of \<open>Adjusting.update\<close> for a value of \<open>i\<close>. Python evaluates the
  right-hand side of an assignment first and the arguments of a call from left to
  right, so the first subscript that is evaluated is \<open>agent.mass[i]\<close>.
\<close>

definition Adjusting_body ::
    "subscript \<Rightarrow>
     (real list \<Rightarrow> real \<Rightarrow> real list \<Rightarrow> real list \<Rightarrow> real list \<Rightarrow> real list \<Rightarrow> real list) \<Rightarrow>
     agent \<Rightarrow> error + agent" where
  "Adjusting_body i torque_adjust a =
     (case getitem (mass a) i of Inl e \<Rightarrow> Inl e | Inr m \<Rightarrow>
      case getitem (target_velocity a) i of Inl e \<Rightarrow> Inl e | Inr v0 \<Rightarrow>
      case getitem (target_direction a) i of Inl e \<Rightarrow> Inl e | Inr e0 \<Rightarrow>
      case getitem (velocity a) i of Inl e \<Rightarrow> Inl e | Inr v \<Rightarrow>
      case force_adjust m (tau_adj a) v0 e0 v of Inl e \<Rightarrow> Inl e | Inr adj \<Rightarrow>
      case setitem (force a) i adj of Inl e \<Rightarrow> Inl e | Inr f \<Rightarrow>
        if orientable a then
          (case getitem (inertia_rot a) i of Inl e \<Rightarrow> Inl e | Inr ir \<Rightarrow>
           case getitem (target_angle a) i of Inl e \<Rightarrow> Inl e | Inr ta \<Rightarrow>
           case getitem (angle a) i of Inl e \<Rightarrow> Inl e | Inr an \<Rightarrow>
           case getitem (angular_velocity a) i of Inl e \<Rightarrow> Inl e | Inr av \<Rightarrow>
           case setitem (torque a) i (torque_adjust ir (tau_rot a) ta an ta av) of
             Inl e \<Rightarrow> Inl e
           | Inr t \<Rightarrow> Inr (a\<lparr>force := f, torque := t\<rparr>))
        else Inr (a\<lparr>force := f\<rparr>))"

text \<open>\<open>Adjusting.update\<close>: line 69 binds \<open>i\<close> to the method.\<close>

definition Adjusting_update ::
    "(real list \<Rightarrow> real \<Rightarrow> real list \<Rightarrow> real list \<Rightarrow> real list \<Rightarrow> real list \<Rightarrow> real list) \<Rightarrow>
     agent \<Rightarrow> error + agent" where
  "Adjusting_update torque_adjust a =
     (let i = Bound_method
      in Adjusting_body i torque_adjust a)"

text \<open>
  \<open>to_indices\<close> of \<open>core/steering/navigation.py\<close>: \<open>np.round\<close> rounds a half to the even
  neighbour. \<open>points / step\<close> is a division of numpy arrays, which raises nothing: for
  \<open>step = 0\<close> it gives inf or NaN, and \<open>np.round\<close> keeps them. \<open>astype(np.int64)\<close> gives
  the integer itself when it fits in 64 bits; for inf, for NaN and for a value outside
  that range the conversion (of x86-64) gives the smallest 64-bit integer. The quotient
  is the exact one here, where the source rounds the quotient of two doubles.
\<close>

definition np_round :: "real \<Rightarrow> int" where
  "np_round x =
     (let f = \<lfloor>x\<rfloor>;
          r = x - of_int f
      in if r < 1 / 2 then f else if 1 / 2 < r then f + 1 else if even f then f else f + 1)"

definition astype_int64 :: "int \<Rightarrow> int" where
  "astype_int64 k = (if - (2 ^ 63) \<le> k \<and> k < 2 ^ 63 then k else - (2 ^ 63))"

definition round_div :: "real \<Rightarrow> real \<Rightarrow> int" where
  "round_div x step = (if step = 0 then - (2 ^ 63) else astype_int64 (np_round (x / step)))"

definition to_indices :: "vec list \<Rightarrow> real \<Rightarrow> (int \<times> int) list" where
  "to_indices points step = map (\<lambda>p. (round_div (fst p) step, round_div (snd p) step)) points"

text \<open>
  Indexing a numpy array with an integer: an index from \<open>-n\<close> to \<open>-1\<close> counts from the
  end, an index outside \<open>-n .. n - 1\<close> raises IndexError.
\<close>

definition np_index :: "'a list \<Rightarrow> int \<Rightarrow> error + 'a" where
  "np_index xs k =
     (let n = int (length xs)
      in if 0 \<le> k \<and> k < n then Inr (xs ! nat k)
         else if - n \<le> k \<and> k < 0 then Inr (xs ! nat (k + n))
         else Inl IndexError)"

fun map_err :: "('a \<Rightarrow> error + 'b) \<Rightarrow> 'a list \<Rightarrow> error + 'b list" where
  "map_err f [] = Inr []"
| "map_err f (x # xs) =
     (case f x of
        Inl e \<Rightarrow> Inl e
      | Inr y \<Rightarrow> (case map_err f xs of Inl e \<Rightarrow> Inl e | Inr ys \<Rightarrow> Inr (y # ys)))"

text \<open>
  \<open>Navigation.update\<close>: \<open>step\<close> and \<open>direction_map\<close> are the fields of the task node,
  \<open>direction_map\<close> an array of rows of direction vectors.
\<close>

definition Navigation_update :: "real \<Rightarrow> vec list list \<Rightarrow> agent \<Rightarrow> error + agent" where
  "Navigation_update step direction_map a =
     (let i = indices a;
          points = take_at (position a) i;
          ind = to_indices points step;
          ind = map prod.swap ind
      in case map_err (\<lambda>rc. case np_index direction_map (fst rc) of
                               Inl e \<Rightarrow> Inl e
                             | Inr row \<Rightarrow> np_index row (snd rc)) ind of
           Inl e \<Rightarrow> Inl e
         | Inr d \<Rightarrow>
             (case assign_at (target_direction a) i d of
                Inl e \<Rightarrow> Inl e
              | Inr td \<Rightarrow> Inr (a\<lparr>target_direction := td\<rparr>)))"

section \<open>Scenario assembly (crowd_dynamics/parameters.py, source/field/wall.py)\<close>

text \<open>
  A wall object is a \<open>RoundWall\<close> (rows of centre and radius) or a \<open>LinearWall\<close> (rows of
  \<open>p_0\<close>, \<open>p_1\<close>, \<open>t_w\<close>, \<open>n_w\<close>, \<open>l_w\<close> as \<open>construct\<close> stored them). \<open>distance\<close> goes
  through \<open>deconstruct\<close>, which raises IndexError outside \<open>0 .. size - 1\<close>.
\<close>

datatype wall = RoundWall "(vec \<times> real) list" | LinearWall "(vec \<times> vec \<times> vec \<times> vec \<times> real) list"

fun wall_size :: "wall \<Rightarrow> nat" where
  "wall_size (RoundWall rows) = length rows"
| "wall_size (LinearWall rows) = length rows"

fun wall_distance :: "wall \<Rightarrow> nat \<Rightarrow> vec \<Rightarrow> error + real" where
  "wall_distance (RoundWall rows) i x =
     (if length rows \<le> i then Inl IndexError
      else (case rows ! i of (p, r) \<Rightarrow>
              (let q = vsub x p;
                   d_iw = length_v q - r
               in Inr d_iw)))"
| "wall_distance (LinearWall rows) i x =
     (if length rows \<le> i then Inl IndexError
      else (case rows ! i of (p_0, p_1, t_w, n_w, l_w) \<Rightarrow>
              (let q_0 = vsub x p_0;
                   q_1 = vsub x p_1;
                   l_t = - dot t_w q_1 - dot t_w q_0
               in if l_t > l_w then Inr (length_v q_0)
                  else if l_t < - l_w then Inr (length_v q_1)
                  else Inr \<bar>dot n_w q_0\<bar>)))"

text \<open>
  The wall test of \<open>random_position\<close>: \<open>cond\<close> starts at 1 and is multiplied by
  \<open>d > 0\<close> for every row of every wall.
\<close>

definition wall_test :: "wall list \<Rightarrow> vec \<Rightarrow> real \<Rightarrow> error + bool" where
  "wall_test walls pos rad =
     fold_err (\<lambda>wj cond. case wall_distance (fst wj) (snd wj) pos of
                            Inl e \<Rightarrow> Inl e
                          | Inr d \<Rightarrow> Inr (cond \<and> d - rad > 0))
       (concat (map (\<lambda>wall. map (Pair wall) [0..<wall_size wall]) walls)) True"

text \<open>
  The test against the agents placed so far: \<open>np.all(d > 0)\<close> over
  \<open>position[:i]\<close> and \<open>radius[:i]\<close>.
\<close>

definition agent_test :: "vec list \<Rightarrow> real list \<Rightarrow> nat \<Rightarrow> vec \<Rightarrow> real \<Rightarrow> bool" where
  "agent_test position' radius' i pos rad =
     list_all (\<lambda>pr. length_v (vsub pos (fst pr)) - (rad + snd pr) > 0)
       (zip (take i position') (take i radius'))"

text \<open>
  The body of the loop of \<open>random_position\<close> after the test of the iteration limit
  (lines 69 to 92): one Monte-Carlo trial for slot \<open>i\<close>. The random source is the
  parameter \<open>draw\<close>: trial number \<open>k\<close> (counted from 0) proposes the position \<open>draw k\<close>.
  A trial that ends in \<open>continue\<close> leaves \<open>i\<close> and \<open>position\<close> as they were.
\<close>

definition trial ::
    "(nat \<Rightarrow> vec) \<Rightarrow> real list \<Rightarrow> wall list \<Rightarrow> nat \<Rightarrow> nat \<Rightarrow> vec list \<Rightarrow> error + (nat \<times> vec list)" where
  "trial draw radius' walls iterations i position' =
     (let pos = draw iterations
      in if length radius' \<le> i then Inl IndexError
         else
           (let rad = radius' ! i
            in if i > 0 \<and> \<not> agent_test position' radius' i pos rad then Inr (i, position')
               else
                 (case wall_test walls pos rad of
                    Inl e \<Rightarrow> Inl e
                  | Inr cond \<Rightarrow>
                      if \<not> cond then Inr (i, position')
                      else Inr (Suc i, position'[i := pos]))))"

text \<open>
  The loop of \<open>random_position\<close>: \<open>iterations\<close> counts the trials made so far. The
  exception carries \<open>max_iterations\<close>, as its message does.
\<close>

function random_position_loop ::
    "(nat \<Rightarrow> vec) \<Rightarrow> real list \<Rightarrow> wall list \<Rightarrow> nat \<Rightarrow> nat \<Rightarrow> nat \<Rightarrow> vec list \<Rightarrow> error + vec list" where
  "random_position_loop draw radius' walls max_iterations i iterations position' =
     (if i < length position' then
        (if iterations \<ge> max_iterations then Inl (IterationLimit max_iterations)
         else
           (case trial draw radius' walls iterations i position' of
              Inl e \<Rightarrow> Inl e
            | Inr (i', position'') \<Rightarrow>
                random_position_loop draw radius' walls max_iterations i' (Suc iterations)
                  position''))
      else Inr position')"
  by pat_completeness auto
termination
  by (relation "measure (\<lambda>(draw, radius', walls, max_iterations, i, iterations, position').
        max_iterations - iterations)") auto

declare random_position_loop.simps [simp del]

text \<open>
  \<open>random_position\<close>: \<open>tuple(filter(None, walls))\<close> drops the entries of \<open>walls\<close> that
  are \<open>None\<close>.
\<close>

definition filter_None :: "wall option list \<Rightarrow> wall list" where
  "filter_None walls = map the (filter (\<lambda>w. w \<noteq> None) walls)"

definition random_position ::
    "(nat \<Rightarrow> vec) \<Rightarrow> vec list \<Rightarrow> real list \<Rightarrow> wall option list \<Rightarrow> error + vec list" where
  "random_position draw position' radius' walls =
     (let walls = filter_None walls;
          max_iterations = 100 * length position'
      in random_position_loop draw radius' walls max_iterations 0 0 position')"

text \<open>
  \<open>LinearWall.construct\<close> of \<open>source/field/wall.py\<close>: the row that it stores for a pair
  of end points. \<open>np.dot(rot90, t_w)\<close> with the matrix \<open>((0, -1), (1, 0))\<close> is
  \<open>rotate90 t_w\<close>. A wall object of the simulation is built by its class, so each of
  its rows is the row that \<open>construct\<close> computes from the end points.
\<close>

definition linear_row :: "vec \<times> vec \<Rightarrow> error + (vec \<times> vec \<times> vec \<times> vec \<times> real)" where
  "linear_row p =
     (let d = vsub (snd p) (fst p);
          l_w = length_v (snd d, fst d)
      in case vdiv d l_w of
           Inl e \<Rightarrow> Inl e
         | Inr t_w \<Rightarrow>
             (let n_w = rotate90 t_w
              in Inr (fst p, snd p, t_w, n_w, l_w)))"

definition constructed :: "wall \<Rightarrow> bool" where
  "constructed wall =
     (case wall of
        RoundWall rows \<Rightarrow> True
      | LinearWall rows \<Rightarrow>
          list_all (\<lambda>row. linear_row (fst row, fst (snd row)) = Inr row) rows)"

section \<open>Properties named by the theorems\<close>

text \<open>
  The state (\<open>i\<close>, \<open>position\<close>) of a placement after its first \<open>k\<close> Monte-Carlo trials:
  trial number \<open>k\<close> is made when a slot is still empty after the trials before it.
\<close>

fun trials ::
    "(nat \<Rightarrow> vec) \<Rightarrow> real list \<Rightarrow> wall list \<Rightarrow> vec list \<Rightarrow> nat \<Rightarrow> error + (nat \<times> vec list)" where
  "trials draw radius' walls position' 0 = Inr (0, position')"
| "trials draw radius' walls position' (Suc k) =
     (case trials draw radius' walls position' k of
        Inl e \<Rightarrow> Inl e
      | Inr (i, ps) \<Rightarrow> if i < length ps then trial draw radius' walls k i ps else Inr (i, ps))"

text \<open>
  The geometry of the walls. A point \<open>y\<close> lies on the segment from \<open>p0\<close> to \<open>p1\<close>. A
  disk of radius \<open>rad\<close> at \<open>x\<close> is clear of a wall: it is at a positive distance from
  every round obstacle (a disk of centre \<open>c\<close> and radius \<open>r\<close>) of a \<open>RoundWall\<close> and
  from every point of every segment of a \<open>LinearWall\<close>.
\<close>

definition on_segment :: "vec \<Rightarrow> vec \<Rightarrow> vec \<Rightarrow> bool" where
  "on_segment p0 p1 y \<longleftrightarrow> (\<exists>s. 0 \<le> s \<and> s \<le> 1 \<and> y = vadd p0 (smul s (vsub p1 p0)))"

fun clear_of :: "wall option \<Rightarrow> vec \<Rightarrow> real \<Rightarrow> bool" where
  "clear_of None x rad = True"
| "clear_of (Some (RoundWall rows)) x rad =
     (\<forall>row\<in>set rows. rad + snd row < length_v (vsub x (fst row)))"
| "clear_of (Some (LinearWall rows)) x rad =
     (\<forall>row\<in>set rows. \<forall>y. on_segment (fst row) (fst (snd row)) y \<longrightarrow> rad < length_v (vsub x y))"

text \<open>
  The tests that the loop has made for the first \<open>n\<close> disks of \<open>ps\<close>: they do not
  overlap one another, and each has a positive skin distance to every row of every wall.
\<close>

definition placed_ok :: "wall list \<Rightarrow> real list \<Rightarrow> nat \<Rightarrow> vec list \<Rightarrow> bool" where
  "placed_ok walls radius' n ps \<longleftrightarrow>
     (\<forall>k<n. \<forall>l<n. k \<noteq> l \<longrightarrow> radius' ! k + radius' ! l < length_v (vsub (ps ! k) (ps ! l))) \<and>
     (\<forall>k<n. \<forall>wall\<in>set walls. \<forall>j<wall_size wall.
        \<exists>d. wall_distance wall j (ps ! k) = Inr d \<and> 0 < d - radius' ! k)"

text \<open>\<open>sum(force)\<close> over the agents, component by component.\<close>

definition sum_v :: "vec list \<Rightarrow> vec" where
  "sum_v xs = (sum_list (map fst xs), sum_list (map snd xs))"

text \<open>A social kernel obeys Newton's third law: the partner gets \<open>-f\<close>.\<close>

definition antisymmetric :: "kernel \<Rightarrow> bool" where
  "antisymmetric K \<longleftrightarrow> (\<forall>a i j fi fj. K a i j = Inr (fi, fj) \<longrightarrow> fj = vneg fi)"

text \<open>The cache of agent \<open>k\<close> holds the maximum of its buffer of neighbour distances.\<close>

definition cache_ok :: "agent \<Rightarrow> nat \<Rightarrow> bool" where
  "cache_ok a k \<longleftrightarrow> np_max (neighbor_distances a ! k) = Inr (neighbor_distances_max a ! k)"

text \<open>
  The rows of agent \<open>k\<close> in the three neighbour arrays are the same in \<open>a\<close> and \<open>a'\<close>;
  or the buffer of \<open>a'\<close> is that of \<open>a\<close> with one slot replaced by neighbour \<open>j\<close> at
  some distance \<open>h\<close>, the slot that held the maximum of the buffer.
\<close>

definition row_unchanged :: "agent \<Rightarrow> agent \<Rightarrow> nat \<Rightarrow> bool" where
  "row_unchanged a a' k \<longleftrightarrow>
     neighbors a' ! k = neighbors a ! k \<and>
     neighbor_distances a' ! k = neighbor_distances a ! k \<and>
     neighbor_distances_max a' ! k = neighbor_distances_max a ! k"

definition inserted_at_max :: "agent \<Rightarrow> agent \<Rightarrow> nat \<Rightarrow> nat \<Rightarrow> bool" where
  "inserted_at_max a a' k j \<longleftrightarrow>
     (\<exists>ind h. ind < length (neighbor_distances a ! k) \<and>
        np_max (neighbor_distances a ! k) = Inr (neighbor_distances a ! k ! ind) \<and>
        neighbor_distances a' ! k = (neighbor_distances a ! k)[ind := Fin h] \<and>
        neighbors a' ! k = (neighbors a ! k)[ind := j])"

text \<open>What the neighbour block leaves alone: forces, torques and the shapes.\<close>

definition nb_frame :: "agent \<Rightarrow> agent \<Rightarrow> bool" where
  "nb_frame a a' \<longleftrightarrow>
     force a' = force a \<and> torque a' = torque a \<and> size a' = size a \<and>
     length (neighbors a') = length (neighbors a) \<and>
     length (neighbor_distances a') = length (neighbor_distances a) \<and>
     length (neighbor_distances_max a') = length (neighbor_distances_max a)"

section \<open>Concrete inputs\<close>

text \<open>
  The empty population with the default constants of \<open>core/agent/agents.py\<close>; the
  concrete populations below set the per-agent arrays.
\<close>

definition no_agents :: agent where
  "no_agents =
     \<lparr>size = 0, active = [], three_circle = False, orientable = False, mass = [], radius = [],
      r_t = [], r_s = [], position = [], position_ls = [], position_rs = [], velocity = [],
      target_velocity = [], target_direction = [], force = [], inertia_rot = [], angle = [],
      target_angle = [], angular_velocity = [], torque = [], tau_adj = 1 / 2, tau_rot = 1 / 5,
      mu = 120000, kappa = 40000, damping = 500, std_rand_force = 1 / 10,
      std_rand_torque = 1 / 10, sight_soc = 3, sight_wall = 3, neighbor_radius = 0,
      neighbors = [], neighbor_distances = [], neighbor_distances_max = []\<rparr>"

text \<open>
  Two circular agents of radius 1/4 at rest at \<open>p\<close> and \<open>q\<close>, each with a neighbour
  buffer of one empty slot (distance \<open>+inf\<close>, neighbour index 2 for none).
\<close>

definition two_agents :: "vec \<Rightarrow> vec \<Rightarrow> real \<Rightarrow> agent" where
  "two_agents p q nr =
     no_agents\<lparr>size := 2, active := [True, True], mass := [80, 80], radius := [1 / 4, 1 / 4],
       r_t := [3 / 20, 3 / 20], r_s := [1 / 10, 1 / 10], position := [p, q],
       position_ls := [p, q], position_rs := [p, q], velocity := [(0, 0), (0, 0)],
       target_velocity := [1, 1], target_direction := [(1, 0), (1, 0)],
       force := [(0, 0), (0, 0)], inertia_rot := [4, 4], angle := [0, 0],
       target_angle := [0, 0], angular_velocity := [0, 0], torque := [0, 0],
       neighbor_radius := nr, neighbors := [[2], [2]],
       neighbor_distances := [[PInf], [PInf]], neighbor_distances_max := [PInf, PInf]\<rparr>"

text \<open>
  One three-circle agent standing at \<open>(0, 1)\<close> above the wall from \<open>(-1, 0)\<close> to
  \<open>(1, 0)\<close>, turned so that its right shoulder is the disk nearest to the wall.
\<close>

definition agent_at_wall :: agent where
  "agent_at_wall =
     no_agents\<lparr>size := 1, active := [True], three_circle := True, orientable := True,
       mass := [80], radius := [1 / 2], r_t := [3 / 10], r_s := [1 / 5], position := [(0, 1)],
       position_ls := [(- (3 / 10), 6 / 5)], position_rs := [(3 / 10, 4 / 5)],
       velocity := [(0, 0)], target_velocity := [1], target_direction := [(1, 0)],
       force := [(0, 0)], inertia_rot := [4], angle := [0], target_angle := [0],
       angular_velocity := [0], torque := [0], neighbors := [[]], neighbor_distances := [[]],
       neighbor_distances_max := [PInf]\<rparr>"

definition the_wall :: segments where
  "the_wall = [((- 1, 0), (1, 0))]"

text \<open>
  One circular agent at \<open>p\<close> on a navigation grid of step 1/2 over the unit square
  times two: three rows of three direction vectors.
\<close>

definition walker :: "vec \<Rightarrow> agent" where
  "walker p =
     no_agents\<lparr>size := 1, active := [True], mass := [80], radius := [1 / 4], r_t := [3 / 20],
       r_s := [1 / 10], position := [p], position_ls := [p], position_rs := [p],
       velocity := [(0, 0)], target_velocity := [1], target_direction := [(0, 0)],
       force := [(0, 0)], inertia_rot := [4], angle := [0], target_angle := [0],
       angular_velocity := [0], torque := [0], neighbors := [[]], neighbor_distances := [[]],
       neighbor_distances_max := [PInf]\<rparr>"

definition grid3 :: "vec list list" where
  "grid3 = [[(1, 0), (1, 0), (0, 1)], [(1, 0), (0, 1), (0, 1)], [(0, 1), (0, 1), (- 1, 0)]]"

text \<open>
  Two three-circle bodies side by side on the \<open>x\<close> axis: torso radius 2, shoulder
  radius 1, shoulders 4 to the left and right of the torso.
\<close>

definition body :: "real \<Rightarrow> vec3" where
  "body c = ((c, 0), (c - 4, 0), (c + 4, 0))"

definition body_radii :: real3 where
  "body_radii = (2, 1, 1)"

text \<open>
  A placement of two disks of radius 1/4 between a round obstacle of radius 1 at
  \<open>(0, 5)\<close> and the linear wall from \<open>(-5, -2)\<close> to \<open>(5, -2)\<close>. The first trial proposes
  the centre of the obstacle, the second a point of the linear wall, and the fourth the
  place of the first disk again.
\<close>

definition five_draws :: "nat \<Rightarrow> vec" where
  "five_draws k = [(0, 5), (0, - 2), (0, 0), (0, 0), (0, 1)] ! k"

definition obstacle :: wall where
  "obstacle = RoundWall [((0, 5), 1)]"

definition floor_wall :: wall where
  "floor_wall = LinearWall [((- 5, - 2), (5, - 2), (1, 0), (0, 1), 10)]"

definition two_walls :: "wall option list" where
  "two_walls = [Some obstacle, None, Some floor_wall]"

section \<open>Facts about vectors\<close>

lemma length_v_nonneg: "0 \<le> length_v a"
  by (simp add: length_v_def)

lemma length_v_eq_0_iff: "length_v a = 0 \<longleftrightarrow> a = vzero"
  by (simp add: length_v_def vzero_def add_nonneg_eq_0_iff prod_eq_iff)

lemma length_v_square: "length_v a * length_v a = fst a * fst a + snd a * snd a"
  by (simp add: length_v_def)

lemma length_v_axis: "length_v (a, 0) = \<bar>a\<bar>"
  by (simp add: length_v_def)

lemma vsub_self: "vsub a a = vzero"
  by (simp add: vsub_def vzero_def)

lemma dot_div_self:
  assumes "a \<noteq> vzero"
  shows "dot (vdivs a (length_v a)) a = length_v a"
proof -
  have nz: "length_v a \<noteq> 0" using assms by (simp add: length_v_eq_0_iff)
  have "dot (vdivs a (length_v a)) a = (fst a * fst a + snd a * snd a) / length_v a"
    by (simp add: dot_def vdivs_def add_divide_distrib)
  also have "\<dots> = length_v a * length_v a / length_v a"
    by (simp only: length_v_square)
  also have "\<dots> = length_v a" using nz by simp
  finally show ?thesis .
qed

lemma dot_smul_right: "dot t (smul c a) = c * dot t a"
  by (simp add: dot_def smul_def algebra_simps)

lemma dot_rotate90_self: "dot (rotate90 (vdivs a l)) a = 0"
  by (simp add: dot_def rotate90_def vdivs_def)

lemma dot_vzero: "dot t vzero = 0"
  by (simp add: dot_def vzero_def)

lemma vdiv_Inr: "d \<noteq> 0 \<Longrightarrow> vdiv a d = Inr (vdivs a d)"
  by (simp add: vdiv_def)

section \<open>Coincident points in the distance kernels\<close>

lemma distance_circle_line_rounded_end_point:
  assumes "fst p \<noteq> snd p" and "0 < err"
  shows "distance_circle_line_rounded err (fst p) r p = Inl DivisionByZero"
proof -
  let ?d = "vsub (snd p) (fst p)"
  let ?t = "vdivs ?d (length_v ?d)"
  have nz: "?d \<noteq> vzero"
    using assms(1) by (auto simp: vsub_def vzero_def prod_eq_iff)
  then have lw: "length_v ?d \<noteq> 0"
    by (simp add: length_v_eq_0_iff)
  then have t: "vdiv ?d (length_v ?d) = Inr ?t"
    by (simp add: vdiv_Inr)
  have "vsub (fst p) (snd p) = smul (- 1) ?d"
    by (simp add: vsub_def smul_def)
  then have q1: "dot ?t (vsub (fst p) (snd p)) = - length_v ?d"
    using dot_div_self[OF nz] by (simp add: dot_smul_right)
  have z: "length_v vzero = 0"
    by (simp add: length_v_eq_0_iff)
  show ?thesis
    using assms(2)
    by (simp add: distance_circle_line_rounded_def Let_def t q1 vsub_self dot_vzero z vdiv_def)
qed

text \<open>
  With no rounding error the same query point takes the perpendicular branch, which
  does not divide: the end-point branch is reached by the rounding alone.
\<close>

lemma distance_circle_line_rounded_exact_end_point:
  assumes "fst p \<noteq> snd p"
  shows "distance_circle_line_rounded 0 (fst p) r p = Inr (- r, vzero)"
proof -
  let ?d = "vsub (snd p) (fst p)"
  let ?t = "vdivs ?d (length_v ?d)"
  have nz: "?d \<noteq> vzero"
    using assms(1) by (auto simp: vsub_def vzero_def prod_eq_iff)
  then have lw: "length_v ?d \<noteq> 0"
    by (simp add: length_v_eq_0_iff)
  then have t: "vdiv ?d (length_v ?d) = Inr ?t"
    by (simp add: vdiv_Inr)
  have "vsub (fst p) (snd p) = smul (- 1) ?d"
    by (simp add: vsub_def smul_def)
  then have q1: "dot ?t (vsub (fst p) (snd p)) = - length_v ?d"
    using dot_div_self[OF nz] by (simp add: dot_smul_right)
  have pos: "0 \<le> length_v ?d" by (rule length_v_nonneg)
  have dz: "dot u (0, 0) = 0" for u by (simp add: dot_def)
  show ?thesis
    using pos
    by (simp add: distance_circle_line_rounded_def Let_def t q1 vsub_self dz smul_def vzero_def)
qed

lemma pair_step_coincident:
  "pair_step ((x, ri), (x, rj)) (None, rr, n, ps) = Inl DivisionByZero"
  by (simp add: pair_step_def Let_def less_or_nan_def vsub_self length_v_eq_0_iff vdiv_def)

text \<open>
  Claim C7. Every distance computation handles coincident points by a fallback. This
  holds of \<open>distance_circle_circle\<close>, which tests \<open>d == 0.0\<close>: two circles with the same
  centre get \<open>h = -(r0 + r1)\<close> and the zero normal. It does not hold of the other
  distance computations. The loop of \<open>agent_agent_distance_three_circle\<close> and the
  circular branch of \<open>agent_agent_interaction\<close> divide \<open>x / d\<close> without that test: for
  two agents at the same place, \<open>(1, 1)\<close>, the normal is \<open>0 / 0\<close>. \<open>distance_circle_line\<close>
  divides \<open>q[0] / d_iw\<close> in its end-point branch without a test: for the segment from
  \<open>(0, 0)\<close> to \<open>(3, 3)\<close> and the query point \<open>(0, 0)\<close>, the doubles are
  \<open>l_w = 4.242640687119285\<close> and \<open>l_t = 4.242640687119286\<close>, one unit in the last place
  (\<open>2 ^ -50\<close>) more, so that branch is taken with \<open>d_iw = 0\<close> and the normal is \<open>0 / 0\<close>.
\<close>

theorem coincident_points_not_handled:
  "distance_circle_circle (1, 1) (1 / 4) (1, 1) (1 / 4) = (- (1 / 2), vzero) \<and>
   agent_agent_distance_three_circle (two_agents (1, 1) (1, 1) 0) 0 1 = Inl DivisionByZero \<and>
   agent_agent_interaction (\<lambda>a i j. Inr (vzero, vzero)) (\<lambda>a i j. Inr (vzero, vzero)) 0 1
     (two_agents (1, 1) (1, 1) 0) = Inl DivisionByZero \<and>
   distance_circle_line_rounded (1 / 2 ^ 50) (0, 0) (1 / 4) ((0, 0), (3, 3)) = Inl DivisionByZero"
proof -
  have a: "distance_circle_circle (1, 1) (1 / 4) (1, 1) (1 / 4) = (- (1 / 2), vzero)"
    by (simp add: distance_circle_circle_def vsub_self length_v_eq_0_iff Let_def)
  have b: "agent_agent_distance_three_circle (two_agents (1, 1) (1, 1) 0) 0 1 = Inl DivisionByZero"
    by (simp add: agent_agent_distance_three_circle_def two_agents_def no_agents_def Let_def
        pair_step_coincident)
  have c: "agent_agent_interaction (\<lambda>a i j. Inr (vzero, vzero)) (\<lambda>a i j. Inr (vzero, vzero)) 0 1
     (two_agents (1, 1) (1, 1) 0) = Inl DivisionByZero"
  proof -
    have z: "length_v vzero = 0" by (simp add: length_v_eq_0_iff)
    show ?thesis
      by (simp add: agent_agent_interaction_def pair_model_def two_agents_def no_agents_def Let_def
          vsub_self z vdiv_def)
  qed
  have d: "distance_circle_line_rounded (1 / 2 ^ 50) (0, 0) (1 / 4) ((0, 0), (3, 3))
         = Inl DivisionByZero"
    using distance_circle_line_rounded_end_point[of "((0, 0), (3, 3))" "1 / 2 ^ 50" "1 / 4"]
    by simp
  show ?thesis using a b c d by simp
qed

section \<open>The second moment arm of \<open>distance_three_circle\<close>\<close>

text \<open>
  Claim C2. \<open>distance_three_circle\<close> returns the minimum of the nine skin distances and
  the second moment arm \<open>x1_chosen - r1_chosen * n - x1_torso\<close>. On the two bodies
  \<open>body 0\<close> and \<open>body 20\<close> the minimum 10 is attained by the right shoulder of the first
  and the left shoulder \<open>(16, 0)\<close> of the second, with normal \<open>(-1, 0)\<close>. The function
  returns the second moment arm \<open>(-23, 0)\<close>: line 103 reads the position from \<open>x0\<close>, the
  first body. The formula of the claim (and of the docstring) gives \<open>(-3, 0)\<close>.
\<close>

theorem distance_three_circle_second_moment_arm:
  "distance_three_circle (body 0) body_radii (body 20) body_radii
     = (Some 10, (- 1, 0), (3, 0), (- 23, 0)) \<and>
   vsub (vsub (list3 (body 20) ! 1) (smul (list3 body_radii ! 1) (- 1, 0))) (fst (body 20))
     = (- 3, 0)"
  by (simp add: distance_three_circle_def three_circle_loop_def enum_zip_def list3_def body_def
      body_radii_def three_circle_step_def distance_circle_circle_def less_or_nan_def
      vsub_def vadd_def smul_def vdivs_def vzero_def length_v_def Let_def)

section \<open>The navigation lookup\<close>

text \<open>
  A step of 0 raises no division error: every index is the smallest 64-bit integer, and
  the read of the direction map raises IndexError.
\<close>

lemma navigation_step_zero:
  "Navigation_update 0 grid3 (walker (1 / 2, 1 / 2)) = Inl IndexError"
  by (simp add: Navigation_update_def indices_def walker_def no_agents_def take_at_def
      to_indices_def round_div_def np_index_def grid3_def Let_def)

text \<open>
  Claim C3. The navigation lookup clamps the grid index to the grid before it reads the
  direction map. On a grid of three rows and three columns with step 1/2, an agent at
  \<open>x = 1.3\<close> gets the column index 3 and the read raises IndexError; an agent at
  \<open>x = -0.3\<close> gets the column index -1, which numpy counts from the end, so the agent
  is given the direction stored at the opposite edge (column 2) and not the one at
  column 0. \<open>Navigation.update\<close> has no clamp.
\<close>

theorem navigation_lookup_not_clamped:
  "Navigation_update (1 / 2) grid3 (walker (13 / 10, 1 / 2)) = Inl IndexError \<and>
   Navigation_update (1 / 2) grid3 (walker (- (3 / 10), 1 / 2))
     = Inr ((walker (- (3 / 10), 1 / 2))\<lparr>target_direction := [grid3 ! 1 ! 2]\<rparr>)"
  by (simp add: Navigation_update_def indices_def walker_def no_agents_def take_at_def
      to_indices_def round_div_def astype_int64_def np_round_def np_index_def grid3_def Let_def
      assign_at_def)

section \<open>The torque of an agent at a wall\<close>

lemma agent_at_wall_fields:
  "position agent_at_wall = [(0, 1)]" "radius agent_at_wall = [1 / 2]"
  "three_circle agent_at_wall" "orientable agent_at_wall" "size agent_at_wall = 1"
  "sight_wall agent_at_wall = 3" "force agent_at_wall = [(0, 0)]" "torque agent_at_wall = [0]"
  by (simp_all add: agent_at_wall_def no_agents_def)

lemma agent_at_wall_distance:
  "agent_wall_distance agent_at_wall the_wall 0 0
     = Inr (Some (3 / 5), (0, 1), (3 / 10, - (2 / 5)))"
  by (simp add: agent_wall_distance_def agent_at_wall_def no_agents_def the_wall_def wall_step_def
      distance_with_normal_def distance_circle_line_def distance_circle_line_rounded_def Let_def
      vsub_def length_v_def vdiv_def
      vdivs_def dot_def rotate90_def less_or_nan_def smul_def vzero_def)

lemma the_wall_distance: "distance_with_normal the_wall 0 (0, 1) = Inr (1, (0, 1))"
  by (simp add: the_wall_def distance_with_normal_def distance_circle_line_def
      distance_circle_line_rounded_def Let_def vsub_def
      length_v_def vdiv_def vdivs_def dot_def rotate90_def smul_def)

lemma agent_at_wall_kernel:
  "helbing_wall_kernel 0 0 agent_at_wall the_wall = Inr (0, 2000 * exp (- (25 / 4)))"
  by (simp add: helbing_wall_kernel_def agent_at_wall_fields the_wall_distance
      force_social_helbing_def smul_def)

lemma agent_at_wall_model:
  "wall_model helbing_wall_kernel 0 0 agent_at_wall the_wall (1 / 2) (0, 1)
     = Inr (Some (3 / 5), (0, 1), vzero, (0, 2000 * exp (- (25 / 4))))"
  by (simp add: wall_model_def agent_at_wall_fields agent_at_wall_distance agent_at_wall_kernel)

text \<open>
  Whatever the wall kernel returns, the moment arm that reaches the torque is the zero
  vector, so no agent-obstacle interaction changes a torque.
\<close>

lemma cross2d_vzero: "cross2d vzero f = 0"
  by (simp add: cross2d_def vzero_def)

lemma wall_model_arm:
  assumes "wall_model K i w a wall h n = Inr (h1, n1, r_moment_i, force0)"
  shows "r_moment_i = vzero"
  using assms by (auto simp: wall_model_def Let_def split: if_splits sum.splits prod.splits)

lemma agent_wall_interaction_torque:
  assumes "agent_wall_interaction K i w a wall = Inr a'"
  shows "torque a' = torque a"
proof -
  have "torque a' = torque a \<or> torque a' = (torque a)[i := torque a ! i + 0]"
    using assms
    by (auto simp: agent_wall_interaction_def Let_def cross2d_vzero
        split: if_splits sum.splits prod.splits dest!: wall_model_arm)
  then show ?thesis by auto
qed

text \<open>
  Claim C5. With the three-circle model the torque that an agent-obstacle interaction
  adds to agent \<open>i\<close> is \<open>cross(r_moment_i, force)\<close>, the moment arm taken at the disk
  nearest to the wall. For \<open>agent_at_wall\<close> the nearest disk is the right shoulder,
  \<open>agent_wall_distance\<close> gives the moment arm \<open>(0.3, -0.4)\<close> and the force is
  \<open>(0, 2000 exp(-6.25))\<close>, so the claim asks for a torque of \<open>600 exp(-6.25)\<close>. The
  interaction changes the force only: the torque stays 0, since line 171 replaces the
  moment arm by zeros.
\<close>

theorem wall_torque_not_accumulated:
  "agent_wall_interaction helbing_wall_kernel 0 0 agent_at_wall the_wall
     = Inr (agent_at_wall\<lparr>force := [(0, 2000 * exp (- (25 / 4)))]\<rparr>) \<and>
   agent_wall_distance agent_at_wall the_wall 0 0
     = Inr (Some (3 / 5), (0, 1), (3 / 10, - (2 / 5))) \<and>
   cross2d (3 / 10, - (2 / 5)) (0, 2000 * exp (- (25 / 4))) \<noteq> 0"
  by (simp add: agent_wall_interaction_def agent_at_wall_fields the_wall_distance
      agent_at_wall_model agent_at_wall_distance nan_less_def Let_def cross2d_def vzero_def
      vadd_def)

section \<open>The power-law force at a grazing collision\<close>

text \<open>
  What holds of \<open>f_soc_ij\<close>: the four tests return the zero force; a force that is
  returned is at most \<open>f_max\<close> long, for \<open>f_max\<close> not negative; and a force is returned
  when the discriminant and the time to collision are positive and \<open>tau_0\<close> is not 0.
\<close>

lemma length_v_smul: "length_v (smul c w) = \<bar>c\<bar> * length_v w"
proof -
  have "c * fst w * (c * fst w) + c * snd w * (c * snd w) = c\<^sup>2 * (fst w * fst w + snd w * snd w)"
    by (simp add: power2_eq_square algebra_simps)
  then show ?thesis
    by (simp add: length_v_def smul_def real_sqrt_mult)
qed

lemma f_soc_ij_zero_cases:
  assumes "(dot x_ij v_ij)\<^sup>2 - dot v_ij v_ij * (dot x_ij x_ij - r_ij\<^sup>2) < 0 \<or>
           \<bar>dot v_ij v_ij\<bar> < 1 / 1000 \<or>
           (- dot x_ij v_ij - sqrt ((dot x_ij v_ij)\<^sup>2 - dot v_ij v_ij * (dot x_ij x_ij - r_ij\<^sup>2)))
              / dot v_ij v_ij < 0 \<or>
           999 < (- dot x_ij v_ij - sqrt ((dot x_ij v_ij)\<^sup>2 - dot v_ij v_ij * (dot x_ij x_ij - r_ij\<^sup>2)))
              / dot v_ij v_ij"
  shows "f_soc_ij x_ij v_ij r_ij k tau_0 f_max = Inr vzero"
  using assms by (auto simp: f_soc_ij_def Let_def)

lemma f_soc_ij_unfold:
  fixes x_ij v_ij :: vec and r_ij k tau_0 f_max :: real
  defines "a \<equiv> dot v_ij v_ij" and "b \<equiv> - dot x_ij v_ij"
  defines "sd \<equiv> sqrt (b\<^sup>2 - a * (dot x_ij x_ij - r_ij\<^sup>2))"
  defines "tau \<equiv> (b - sd) / a"
  defines "W \<equiv> vsub vzero
        (smul (k / (a * tau\<^sup>2) * exp (- tau / tau_0) * (2 / tau + 1 / tau_0))
           (vsub v_ij (vdivs (vadd (smul b v_ij) (smul a x_ij)) sd)))"
  shows "f_soc_ij x_ij v_ij r_ij k tau_0 f_max =
     (if b\<^sup>2 - a * (dot x_ij x_ij - r_ij\<^sup>2) < 0 \<or> (- (1 / 1000) < a \<and> a < 1 / 1000) then Inr vzero
      else if tau < 0 \<or> 999 < tau then Inr vzero
      else if tau = 0 \<or> tau_0 = 0 \<or> sd = 0 then Inl DivisionByZero
      else if f_max < length_v W
           then (if length_v W = 0 then Inl DivisionByZero else Inr (smul (f_max / length_v W) W))
           else Inr W)"
  unfolding f_soc_ij_def Let_def a_def b_def sd_def tau_def W_def by (rule refl)

lemma clamp_bounded:
  assumes "0 \<le> f_max"
    and "(if f_max < length_v W
          then (if length_v W = 0 then Inl DivisionByZero else Inr (smul (f_max / length_v W) W))
          else Inr W) = Inr f"
  shows "length_v f \<le> f_max"
proof (cases "f_max < length_v W")
  case True
  then have "0 < length_v W" using assms(1) by simp
  then show ?thesis using assms True by (auto simp: length_v_smul)
next
  case False
  then show ?thesis using assms by auto
qed

lemma f_soc_ij_bounded:
  assumes "0 \<le> f_max" and "f_soc_ij x_ij v_ij r_ij k tau_0 f_max = Inr f"
  shows "length_v f \<le> f_max"
proof -
  define a where "a = dot v_ij v_ij"
  define b where "b = - dot x_ij v_ij"
  define sd where "sd = sqrt (b\<^sup>2 - a * (dot x_ij x_ij - r_ij\<^sup>2))"
  define tau where "tau = (b - sd) / a"
  define W where "W = vsub vzero
        (smul (k / (a * tau\<^sup>2) * exp (- tau / tau_0) * (2 / tau + 1 / tau_0))
           (vsub v_ij (vdivs (vadd (smul b v_ij) (smul a x_ij)) sd)))"
  note eq = f_soc_ij_unfold[of x_ij v_ij r_ij k tau_0 f_max,
      folded a_def b_def, folded sd_def, folded tau_def, folded W_def]
  have z: "length_v vzero \<le> f_max" using assms(1) by (simp add: length_v_def vzero_def)
  show ?thesis
    using assms(2) z clamp_bounded[OF assms(1), of W f]
    unfolding eq by (simp split: if_splits)
qed

lemma f_soc_ij_regular:
  assumes "0 \<le> f_max" and "tau_0 \<noteq> 0"
    and "1 / 1000 \<le> \<bar>dot v_ij v_ij\<bar>"
    and "0 < (- dot x_ij v_ij)\<^sup>2 - dot v_ij v_ij * (dot x_ij x_ij - r_ij\<^sup>2)"
    and "0 < (- dot x_ij v_ij - sqrt ((- dot x_ij v_ij)\<^sup>2 - dot v_ij v_ij * (dot x_ij x_ij - r_ij\<^sup>2)))
              / dot v_ij v_ij"
    and "(- dot x_ij v_ij - sqrt ((- dot x_ij v_ij)\<^sup>2 - dot v_ij v_ij * (dot x_ij x_ij - r_ij\<^sup>2)))
              / dot v_ij v_ij \<le> 999"
  shows "\<exists>f. f_soc_ij x_ij v_ij r_ij k tau_0 f_max = Inr f \<and> length_v f \<le> f_max"
proof -
  define a where "a = dot v_ij v_ij"
  define b where "b = - dot x_ij v_ij"
  define sd where "sd = sqrt (b\<^sup>2 - a * (dot x_ij x_ij - r_ij\<^sup>2))"
  define tau where "tau = (b - sd) / a"
  define W where "W = vsub vzero
        (smul (k / (a * tau\<^sup>2) * exp (- tau / tau_0) * (2 / tau + 1 / tau_0))
           (vsub v_ij (vdivs (vadd (smul b v_ij) (smul a x_ij)) sd)))"
  note eq = f_soc_ij_unfold[of x_ij v_ij r_ij k tau_0 f_max,
      folded a_def b_def, folded sd_def, folded tau_def, folded W_def]
  have 1: "\<not> (b\<^sup>2 - a * (dot x_ij x_ij - r_ij\<^sup>2) < 0 \<or> (- (1 / 1000) < a \<and> a < 1 / 1000))"
    using assms(3,4) by (auto simp: a_def b_def)
  have 2: "\<not> (tau < 0 \<or> 999 < tau)" "tau \<noteq> 0"
    using assms(5,6) by (auto simp: tau_def sd_def a_def b_def)
  have 3: "sd \<noteq> 0" using assms(4) by (simp add: sd_def a_def b_def)
  have 4: "length_v W \<noteq> 0" if "f_max < length_v W" using that assms(1) by simp
  have "\<exists>f. f_soc_ij x_ij v_ij r_ij k tau_0 f_max = Inr f"
    unfolding eq using 1 2 3 4 assms(2) by simp
  then show ?thesis using f_soc_ij_bounded[OF assms(1)] by blast
qed

text \<open>
  Claim C6. \<open>f_soc_ij\<close> returns the zero vector when the discriminant is negative, when
  \<open>|a| < 0.001\<close> or when the time to collision is negative or above 999, and in every other
  case a force of magnitude at most \<open>f_max\<close>. With relative position \<open>(2, 1)\<close>, relative
  velocity \<open>(-1, 0)\<close> and summed radius 1 the two disks graze: the discriminant is 0
  and the time to collision is 2, so none of the tests returns, and the force divides
  by the square root of the discriminant. With relative position \<open>(1, 0)\<close> the disks
  touch and the time to collision is 0, by which the force divides too. Either way
  no finite force comes back.
\<close>

theorem f_soc_ij_grazing_not_finite:
  "f_soc_ij (2, 1) (- 1, 0) 1 (3 / 2) 3 2000 = Inl DivisionByZero \<and>
   f_soc_ij (1, 0) (- 1, 0) 1 (3 / 2) 3 2000 = Inl DivisionByZero"
  by (simp add: f_soc_ij_def dot_def Let_def power2_eq_square)

section \<open>The neighbour buffers and the sight test\<close>

lemma argmax_max_from:
  "length pre = k \<Longrightarrow> bi < k \<Longrightarrow> pre ! bi = bv \<Longrightarrow>
   argmax_from bi bv k xs < k + length xs \<and> (pre @ xs) ! argmax_from bi bv k xs = max_from bv xs"
proof (induction xs arbitrary: pre k bi bv)
  case Nil
  then show ?case by simp
next
  case (Cons x xs)
  show ?case
  proof (cases "xless bv x")
    case True
    have "argmax_from k x (Suc k) xs < Suc k + length xs \<and>
          ((pre @ [x]) @ xs) ! argmax_from k x (Suc k) xs = max_from x xs"
      using Cons.prems by (intro Cons.IH) (auto simp: nth_append)
    then show ?thesis using True by simp
  next
    case False
    have "argmax_from bi bv (Suc k) xs < Suc k + length xs \<and>
          ((pre @ [x]) @ xs) ! argmax_from bi bv (Suc k) xs = max_from bv xs"
      using Cons.prems by (intro Cons.IH) (auto simp: nth_append)
    then show ?thesis using False by simp
  qed
qed

lemma np_argmax_np_max:
  assumes "np_argmax xs = Inr ind"
  shows "ind < length xs \<and> np_max xs = Inr (xs ! ind)"
proof (cases xs)
  case Nil
  with assms show ?thesis by (simp add: np_argmax_def)
next
  case (Cons x rest)
  have "argmax_from 0 x 1 rest < 1 + length rest \<and> ([x] @ rest) ! argmax_from 0 x 1 rest = max_from x rest"
    by (rule argmax_max_from) simp_all
  with assms Cons show ?thesis by (auto simp: np_argmax_def np_max_def)
qed


lemma neighbor_insert_rows:
  assumes "neighbor_insert k j h a = Inr a'" "k < length (neighbor_distances a)"
    "k < length (neighbors a)" "k < length (neighbor_distances_max a)"
  shows "nb_frame a a' \<and> (\<forall>l. l \<noteq> k \<longrightarrow> row_unchanged a a' l) \<and>
         (a' = a \<or> inserted_at_max a a' k j \<and> cache_ok a' k)"
proof (cases "xless (Fin h) (neighbor_distances_max a ! k)")
  case False
  with assms show ?thesis by (simp add: neighbor_insert_def nb_frame_def row_unchanged_def)
next
  case True
  from assms(1) True obtain ind where ind: "np_argmax (neighbor_distances a ! k) = Inr ind"
    by (auto simp: neighbor_insert_def split: sum.splits)
  from assms(1) True ind obtain mx where
    mx: "np_max ((neighbor_distances a)[k := (neighbor_distances a ! k)[ind := Fin h]] ! k) = Inr mx"
    by (auto simp: neighbor_insert_def Let_def split: sum.splits)
  have a': "a' = a\<lparr>neighbors := (neighbors a)[k := (neighbors a ! k)[ind := j]],
               neighbor_distances := (neighbor_distances a)[k := (neighbor_distances a ! k)[ind := Fin h]],
               neighbor_distances_max := (neighbor_distances_max a)[k := mx]\<rparr>"
    using assms(1) True ind mx by (simp add: neighbor_insert_def Let_def)
  have 1: "nb_frame a a'" by (simp add: a' nb_frame_def)
  have 2: "\<forall>l. l \<noteq> k \<longrightarrow> row_unchanged a a' l" by (simp add: a' row_unchanged_def)
  have 3: "cache_ok a' k" using mx assms by (simp add: cache_ok_def a')
  have 4: "inserted_at_max a a' k j"
    unfolding inserted_at_max_def using np_argmax_np_max[OF ind] assms
    by (intro exI[of _ ind] exI[of _ h]) (simp add: a')
  show ?thesis using 1 2 3 4 by blast
qed

lemma neighbor_block_cases:
  assumes "neighbor_block i j h a = Inr a'"
  shows "a' = a \<or> (\<exists>hv a2. h = Some hv \<and> 0 < neighbor_radius a \<and> hv < neighbor_radius a \<and>
           neighbor_insert i j hv a = Inr a2 \<and> neighbor_insert j i hv a2 = Inr a')"
  using assms by (auto simp: neighbor_block_def split: option.splits if_splits sum.splits)

lemma row_unchanged_refl: "row_unchanged a a k"
  by (simp add: row_unchanged_def)

lemma neighbor_block_rows:
  assumes nb: "neighbor_block i j h a = Inr a'" and ij: "i \<noteq> j"
    and len: "i < length (neighbor_distances a)" "i < length (neighbors a)" "i < length (neighbor_distances_max a)"
      "j < length (neighbor_distances a)" "j < length (neighbors a)" "j < length (neighbor_distances_max a)"
  shows "nb_frame a a' \<and>
         (row_unchanged a a' k \<or>
          (k = i \<and> inserted_at_max a a' i j \<or> k = j \<and> inserted_at_max a a' j i) \<and> cache_ok a' k)"
proof -
  from neighbor_block_cases[OF nb] show ?thesis
  proof
    assume "a' = a"
    then show ?thesis by (simp add: nb_frame_def row_unchanged_def)
  next
    assume "\<exists>hv a2. h = Some hv \<and> 0 < neighbor_radius a \<and> hv < neighbor_radius a \<and>
           neighbor_insert i j hv a = Inr a2 \<and> neighbor_insert j i hv a2 = Inr a'"
    then obtain hv a2 where s1: "neighbor_insert i j hv a = Inr a2"
      and s2: "neighbor_insert j i hv a2 = Inr a'" by blast
    note r1 = neighbor_insert_rows[OF s1 len(1,2,3)]
    have f1: "nb_frame a a2" using r1 by blast
    have len2: "j < length (neighbor_distances a2)" "j < length (neighbors a2)"
      "j < length (neighbor_distances_max a2)"
      using f1 len by (simp_all add: nb_frame_def)
    note r2 = neighbor_insert_rows[OF s2 len2]
    have f2: "nb_frame a2 a'" using r2 by blast
    have fr: "nb_frame a a'" using f1 f2 by (simp add: nb_frame_def)
    have ui: "row_unchanged a2 a' i" using r2 ij by auto
    have uj: "row_unchanged a a2 j" using r1 ij by auto
    have other: "row_unchanged a a' k" if "k \<noteq> i" "k \<noteq> j"
    proof -
      have "row_unchanged a a2 k" "row_unchanged a2 a' k" using r1 r2 that by auto
      then show ?thesis by (simp add: row_unchanged_def)
    qed
    have ati: "row_unchanged a a' i \<or> inserted_at_max a a' i j \<and> cache_ok a' i"
    proof -
      from r1 have "a2 = a \<or> inserted_at_max a a2 i j \<and> cache_ok a2 i" by blast
      then show ?thesis
      proof
        assume "a2 = a"
        with ui show ?thesis by simp
      next
        assume "inserted_at_max a a2 i j \<and> cache_ok a2 i"
        with ui have "inserted_at_max a a' i j \<and> cache_ok a' i"
          by (simp add: inserted_at_max_def cache_ok_def row_unchanged_def)
        then show ?thesis ..
      qed
    qed
    have atj: "row_unchanged a a' j \<or> inserted_at_max a a' j i \<and> cache_ok a' j"
    proof -
      from r2 have "a' = a2 \<or> inserted_at_max a2 a' j i \<and> cache_ok a' j" by blast
      then show ?thesis
      proof
        assume "a' = a2"
        with uj show ?thesis by simp
      next
        assume "inserted_at_max a2 a' j i \<and> cache_ok a' j"
        with uj have "inserted_at_max a a' j i \<and> cache_ok a' j"
          by (simp add: inserted_at_max_def row_unchanged_def)
        then show ?thesis ..
      qed
    qed
    show ?thesis using fr other ati atj by blast
  qed
qed


lemma accumulate_neighbors:
  "neighbors (accumulate i j a m) = neighbors a"
  "neighbor_distances (accumulate i j a m) = neighbor_distances a"
  "neighbor_distances_max (accumulate i j a m) = neighbor_distances_max a"
  "size (accumulate i j a m) = size a"
  by (simp_all add: accumulate_def Let_def split: prod.splits)

lemma interaction_phases:
  assumes "agent_agent_interaction K1 K2 i j a = Inr a'"
  shows "i < size a \<and> j < size a \<and>
    (\<exists>a1 h. neighbor_block i j h a1 = Inr a' \<and>
       (sight_soc a < length_v (vsub (position a ! i) (position a ! j)) \<and> a1 = a \<and>
          h = Some (length_v (vsub (position a ! i) (position a ! j)) - (radius a ! i + radius a ! j))
        \<or> length_v (vsub (position a ! i) (position a ! j)) \<le> sight_soc a \<and>
          (\<exists>fi fj rmi rmj n. pair_model K1 K2 i j a = Inr (fi, fj, rmi, rmj, n, h) \<and>
             a1 = accumulate i j a (fi, fj, rmi, rmj, n, h))))"
proof -
  have ij: "i < size a \<and> j < size a"
    using assms by (auto simp: agent_agent_interaction_def split: if_splits)
  show ?thesis
  proof (cases "length_v (vsub (position a ! i) (position a ! j)) \<le> sight_soc a")
    case False
    then have "neighbor_block i j
        (Some (length_v (vsub (position a ! i) (position a ! j)) - (radius a ! i + radius a ! j))) a = Inr a'"
      using assms ij by (simp add: agent_agent_interaction_def Let_def)
    with False ij show ?thesis by auto
  next
    case True
    then obtain fi fj rmi rmj n h where pm: "pair_model K1 K2 i j a = Inr (fi, fj, rmi, rmj, n, h)"
      and nb: "neighbor_block i j h (accumulate i j a (fi, fj, rmi, rmj, n, h)) = Inr a'"
      using assms ij by (auto simp: agent_agent_interaction_def Let_def split: sum.splits)
    with True ij show ?thesis by blast
  qed
qed

lemma neighbor_block_frame:
  assumes "neighbor_block i j h a = Inr a'"
  shows "force a' = force a \<and> torque a' = torque a"
  using assms
  by (auto simp: neighbor_block_def neighbor_insert_def Let_def
      split: option.splits if_splits sum.splits)

text \<open>
  Claim C10. \<open>agent_agent_interaction\<close> keeps the cache of the neighbour buffers right.
  For a pair \<open>i \<noteq> j\<close> and any agent \<open>k\<close>, either the rows of \<open>k\<close> in \<open>neighbors\<close>,
  \<open>neighbor_distances\<close> and \<open>neighbor_distances_max\<close> are untouched, or \<open>k\<close> is one of
  the pair, the partner was written over the slot that held the maximum distance of
  the buffer (no other slot changed), and afterwards \<open>neighbor_distances_max[k]\<close> is
  the maximum of \<open>neighbor_distances[k]\<close>. So where the cache was right before the call
  it is right after it.
\<close>

theorem neighbor_cache_invariant:
  assumes "wf_agent a" and "i \<noteq> j" and "agent_agent_interaction K1 K2 i j a = Inr a'"
  shows "(row_unchanged a a' k \<or>
          (k = i \<and> inserted_at_max a a' i j \<or> k = j \<and> inserted_at_max a a' j i) \<and> cache_ok a' k) \<and>
         (cache_ok a k \<longrightarrow> cache_ok a' k)"
proof -
  from interaction_phases[OF assms(3)] obtain a1 h where
    ij: "i < size a" "j < size a" and nb: "neighbor_block i j h a1 = Inr a'"
    and a1: "neighbors a1 = neighbors a" "neighbor_distances a1 = neighbor_distances a"
       "neighbor_distances_max a1 = neighbor_distances_max a"
    by (auto simp: accumulate_neighbors)
  have len: "i < length (neighbor_distances a1)" "i < length (neighbors a1)"
      "i < length (neighbor_distances_max a1)" "j < length (neighbor_distances a1)"
      "j < length (neighbors a1)" "j < length (neighbor_distances_max a1)"
    using assms(1) ij by (simp_all add: wf_agent_def a1)
  have "row_unchanged a1 a' k \<or>
          (k = i \<and> inserted_at_max a1 a' i j \<or> k = j \<and> inserted_at_max a1 a' j i) \<and> cache_ok a' k"
    using neighbor_block_rows[OF nb assms(2) len] by blast
  then have main: "row_unchanged a a' k \<or>
          (k = i \<and> inserted_at_max a a' i j \<or> k = j \<and> inserted_at_max a a' j i) \<and> cache_ok a' k"
    by (simp add: row_unchanged_def inserted_at_max_def a1)
  have "cache_ok a' k" if "cache_ok a k"
    using main that by (auto simp: row_unchanged_def cache_ok_def)
  with main show ?thesis by blast
qed

text \<open>
  Claim C4, as amended. For a pair whose centre distance exceeds \<open>sight_soc\<close>,
  \<open>agent_agent_interaction\<close> leaves the force and the torque of every agent unchanged.
  The neighbour block stands outside the sight test: the whole state is unchanged when
  \<open>neighbor_radius\<close> is not positive, or \<open>h = d - r_tot\<close> is not below it, or \<open>h\<close> is
  below neither \<open>neighbor_distances_max[i]\<close> nor \<open>neighbor_distances_max[j]\<close>; otherwise
  the neighbour buffers of the pair are maintained as for any other pair.
\<close>

theorem beyond_sight_frame:
  assumes "sight_soc a < length_v (vsub (position a ! i) (position a ! j))"
    and "agent_agent_interaction K1 K2 i j a = Inr a'"
  shows "force a' = force a \<and> torque a' = torque a \<and>
         (neighbor_radius a \<le> 0 \<or>
          neighbor_radius a \<le> length_v (vsub (position a ! i) (position a ! j))
                                 - (radius a ! i + radius a ! j) \<or>
          \<not> xless (Fin (length_v (vsub (position a ! i) (position a ! j))
                          - (radius a ! i + radius a ! j))) (neighbor_distances_max a ! i) \<and>
          \<not> xless (Fin (length_v (vsub (position a ! i) (position a ! j))
                          - (radius a ! i + radius a ! j))) (neighbor_distances_max a ! j)
          \<longrightarrow> a' = a)"
proof -
  let ?h = "length_v (vsub (position a ! i) (position a ! j)) - (radius a ! i + radius a ! j)"
  from interaction_phases[OF assms(2)] assms(1)
  have nb: "neighbor_block i j (Some ?h) a = Inr a'" by auto
  have 1: "force a' = force a \<and> torque a' = torque a"
    by (rule neighbor_block_frame[OF nb])
  have 2: "a' = a" if "neighbor_radius a \<le> 0 \<or> neighbor_radius a \<le> ?h"
    using nb that by (auto simp: neighbor_block_def)
  have 3: "a' = a" if "\<not> xless (Fin ?h) (neighbor_distances_max a ! i)"
      "\<not> xless (Fin ?h) (neighbor_distances_max a ! j)"
    using nb that by (auto simp: neighbor_block_def neighbor_insert_def split: if_splits)
  show ?thesis using 1 2 3 by blast
qed

section \<open>Newton's third law\<close>

lemma sum_list_update_real:
  fixes xs :: "real list"
  shows "i < length xs \<Longrightarrow> sum_list (xs[i := v]) = sum_list xs - xs ! i + v"
  by (induction xs arbitrary: i) (auto split: nat.splits)

lemma sum_v_update:
  assumes "i < length xs"
  shows "sum_v (xs[i := v]) = vadd (vsub (sum_v xs) (xs ! i)) v"
  using assms by (simp add: sum_v_def map_update sum_list_update_real vadd_def vsub_def)

lemma sum_v_pair:
  assumes "i < length xs" "j < length xs" "i \<noteq> j"
  shows "sum_v (xs[i := vadd (xs ! i) f, j := vadd (xs ! j) (vneg f)]) = sum_v xs"
  using assms by (simp add: sum_v_update vadd_def vsub_def vneg_def)

lemma pair_model_antisymmetric:
  assumes "antisymmetric K1" "antisymmetric K2"
    and "pair_model K1 K2 i j a = Inr (fi, fj, rmi, rmj, n, h)"
  shows "fj = vneg fi"
  using assms
  by (auto simp: pair_model_def antisymmetric_def Let_def split: if_splits sum.splits prod.splits)

lemma accumulate_force:
  assumes "i \<noteq> j"
  shows "\<exists>f. force (accumulate i j a (fi, vneg fi, rmi, rmj, n, h))
           = (force a)[i := vadd (force a ! i) f, j := vadd (force a ! j) (vneg f)]"
proof (cases "nan_less h 0")
  case True
  then obtain hv where h: "h = Some hv" by (auto simp: nan_less_def split: option.splits)
  let ?c = "force_contact hv n (vsub (velocity a ! i) (velocity a ! j)) (rotate270 n)
              (mu a) (kappa a) (damping a)"
  have "vsub (vneg fi) ?c = vneg (vadd fi ?c)"
    by (simp add: vsub_def vneg_def vadd_def)
  then have "force (accumulate i j a (fi, vneg fi, rmi, rmj, n, h))
      = (force a)[i := vadd (force a ! i) (vadd fi ?c), j := vadd (force a ! j) (vneg (vadd fi ?c))]"
    using assms True by (simp add: accumulate_def Let_def h)
  then show ?thesis by (rule exI)
next
  case False
  then have "force (accumulate i j a (fi, vneg fi, rmi, rmj, n, h))
      = (force a)[i := vadd (force a ! i) fi, j := vadd (force a ! j) (vneg fi)]"
    using assms by (simp add: accumulate_def Let_def)
  then show ?thesis by (rule exI)
qed

text \<open>
  Claim C1. Newton's third law for a pair: \<open>agent_agent_interaction\<close> adds some vector
  \<open>f\<close> to \<open>force[i]\<close> and \<open>-f\<close> to \<open>force[j]\<close>, so the sum of all force vectors is the
  same before and after, in exact arithmetic. The contact force enters \<open>force_i\<close> with
  \<open>+=\<close> and \<open>force_j\<close> with \<open>-=\<close>; the social kernels are parameters here, and the
  hypothesis on them is the spec's sentence that the partner gets \<open>-f\<close>. The theorem
  speaks of the calls that return: with coincident centres the circular branch divides
  by \<open>d = 0\<close>.
\<close>

theorem newton_third_law_pair:
  assumes "antisymmetric K1" and "antisymmetric K2" and "wf_agent a" and "i \<noteq> j"
    and "agent_agent_interaction K1 K2 i j a = Inr a'"
  shows "(\<exists>f. force a' = (force a)[i := vadd (force a ! i) f, j := vadd (force a ! j) (vneg f)]) \<and>
         sum_v (force a') = sum_v (force a)"
proof -
  from interaction_phases[OF assms(5)] obtain a1 h where
    ij: "i < size a" "j < size a" and nb: "neighbor_block i j h a1 = Inr a'"
    and c: "a1 = a \<or> (\<exists>fi fj rmi rmj n. pair_model K1 K2 i j a = Inr (fi, fj, rmi, rmj, n, h) \<and>
             a1 = accumulate i j a (fi, fj, rmi, rmj, n, h))"
    by blast
  have len: "i < length (force a)" "j < length (force a)"
    using assms(3) ij by (simp_all add: wf_agent_def)
  have fa: "force a' = force a1" using neighbor_block_frame[OF nb] by simp
  have ex: "\<exists>f. force a1 = (force a)[i := vadd (force a ! i) f, j := vadd (force a ! j) (vneg f)]"
    using c
  proof
    assume "a1 = a"
    then have "force a1 = (force a)[i := vadd (force a ! i) vzero, j := vadd (force a ! j) (vneg vzero)]"
      by (simp add: vadd_def vzero_def vneg_def)
    then show ?thesis ..
  next
    assume "\<exists>fi fj rmi rmj n. pair_model K1 K2 i j a = Inr (fi, fj, rmi, rmj, n, h) \<and>
             a1 = accumulate i j a (fi, fj, rmi, rmj, n, h)"
    then obtain fi fj rmi rmj n where pm: "pair_model K1 K2 i j a = Inr (fi, fj, rmi, rmj, n, h)"
      and a1: "a1 = accumulate i j a (fi, fj, rmi, rmj, n, h)" by blast
    have "fj = vneg fi" by (rule pair_model_antisymmetric[OF assms(1,2) pm])
    then show ?thesis using accumulate_force[OF assms(4)] a1 by simp
  qed
  then obtain f where f: "force a' = (force a)[i := vadd (force a ! i) f, j := vadd (force a ! j) (vneg f)]"
    using fa by auto
  have "sum_v (force a') = sum_v (force a)"
    unfolding f by (rule sum_v_pair[OF len assms(4)])
  with f show ?thesis by blast
qed


section \<open>The theorems on concrete populations\<close>

lemma power_law_kernel_antisymmetric: "antisymmetric power_law_kernel"
  by (auto simp: antisymmetric_def power_law_kernel_def split: sum.splits)

lemma two_agents_wf: "wf_agent (two_agents p q nr)"
  by (simp add: wf_agent_def two_agents_def no_agents_def)

lemma two_agents_fields:
  "size (two_agents p q nr) = 2" "position (two_agents p q nr) = [p, q]"
  "radius (two_agents p q nr) = [1 / 4, 1 / 4]" "velocity (two_agents p q nr) = [(0, 0), (0, 0)]"
  "sight_soc (two_agents p q nr) = 3" "\<not> three_circle (two_agents p q nr)"
  "\<not> orientable (two_agents p q nr)" "force (two_agents p q nr) = [(0, 0), (0, 0)]"
  "neighbor_radius (two_agents p q nr) = nr" "mu (two_agents p q nr) = 120000"
  "kappa (two_agents p q nr) = 40000" "damping (two_agents p q nr) = 500"
  "neighbors (two_agents p q nr) = [[2], [2]]"
  "neighbor_distances (two_agents p q nr) = [[PInf], [PInf]]"
  "neighbor_distances_max (two_agents p q nr) = [PInf, PInf]"
  by (simp_all add: two_agents_def no_agents_def)

lemma two_agents_at_rest_kernel:
  "power_law_kernel (two_agents p q nr) 0 (Suc 0) = Inr (vzero, vzero)"
  by (simp add: power_law_kernel_def two_agents_fields f_soc_ij_def Let_def dot_def vsub_def vneg_def vzero_def)

lemma overlap_eval:
  "agent_agent_interaction power_law_kernel power_law_kernel 0 1 (two_agents (0, 0) (2 / 5, 0) 0)
     = Inr ((two_agents (0, 0) (2 / 5, 0) 0)\<lparr>force := [(- 12000, 0), (12000, 0)]\<rparr>)"
  by (simp add: agent_agent_interaction_def pair_model_def two_agents_fields two_agents_at_rest_kernel
       Let_def vsub_def length_v_axis vdiv_def vdivs_def accumulate_def nan_less_def force_contact_def
       rotate270_def dot_def smul_def vadd_def vzero_def neighbor_block_def)

lemma far_eval:
  "agent_agent_interaction power_law_kernel power_law_kernel 0 1 (two_agents (0, 0) (5, 0) 10)
     = Inr ((two_agents (0, 0) (5, 0) 10)\<lparr>neighbors := [[1], [0]],
              neighbor_distances := [[Fin (9 / 2)], [Fin (9 / 2)]],
              neighbor_distances_max := [Fin (9 / 2), Fin (9 / 2)]\<rparr>)"
  by (simp add: agent_agent_interaction_def two_agents_fields
       Let_def vsub_def length_v_axis neighbor_block_def neighbor_insert_def np_argmax_def np_max_def)

lemma far_eval0:
  "agent_agent_interaction power_law_kernel power_law_kernel 0 1 (two_agents (0, 0) (5, 0) 0)
     = Inr (two_agents (0, 0) (5, 0) 0)"
  by (simp add: agent_agent_interaction_def two_agents_fields
       Let_def vsub_def length_v_axis neighbor_block_def)


theorem newton_third_law_pair_witness:
  "antisymmetric power_law_kernel \<and> wf_agent (two_agents (0, 0) (2 / 5, 0) 0) \<and>
   agent_agent_interaction power_law_kernel power_law_kernel 0 1 (two_agents (0, 0) (2 / 5, 0) 0)
     = Inr ((two_agents (0, 0) (2 / 5, 0) 0)\<lparr>force := [(- 12000, 0), (12000, 0)]\<rparr>) \<and>
   (\<exists>f. [(- 12000, 0), (12000, 0)]
        = (force (two_agents (0, 0) (2 / 5, 0) 0))
            [0 := vadd (force (two_agents (0, 0) (2 / 5, 0) 0) ! 0) f,
             1 := vadd (force (two_agents (0, 0) (2 / 5, 0) 0) ! 1) (vneg f)]) \<and>
   sum_v [(- 12000, 0), (12000, 0)] = sum_v (force (two_agents (0, 0) (2 / 5, 0) 0))"
proof -
  have ne: "(0::nat) \<noteq> 1" by simp
  from newton_third_law_pair[OF power_law_kernel_antisymmetric power_law_kernel_antisymmetric
      two_agents_wf ne overlap_eval]
  show ?thesis
    using power_law_kernel_antisymmetric two_agents_wf overlap_eval by simp
qed

theorem neighbor_cache_invariant_witness:
  "wf_agent (two_agents (0, 0) (5, 0) 10) \<and>
   agent_agent_interaction power_law_kernel power_law_kernel 0 1 (two_agents (0, 0) (5, 0) 10)
     = Inr ((two_agents (0, 0) (5, 0) 10)\<lparr>neighbors := [[1], [0]],
              neighbor_distances := [[Fin (9 / 2)], [Fin (9 / 2)]],
              neighbor_distances_max := [Fin (9 / 2), Fin (9 / 2)]\<rparr>) \<and>
   \<not> row_unchanged (two_agents (0, 0) (5, 0) 10)
       ((two_agents (0, 0) (5, 0) 10)\<lparr>neighbors := [[1], [0]],
              neighbor_distances := [[Fin (9 / 2)], [Fin (9 / 2)]],
              neighbor_distances_max := [Fin (9 / 2), Fin (9 / 2)]\<rparr>) 0 \<and>
   inserted_at_max (two_agents (0, 0) (5, 0) 10)
       ((two_agents (0, 0) (5, 0) 10)\<lparr>neighbors := [[1], [0]],
              neighbor_distances := [[Fin (9 / 2)], [Fin (9 / 2)]],
              neighbor_distances_max := [Fin (9 / 2), Fin (9 / 2)]\<rparr>) 0 1 \<and>
   cache_ok ((two_agents (0, 0) (5, 0) 10)\<lparr>neighbors := [[1], [0]],
              neighbor_distances := [[Fin (9 / 2)], [Fin (9 / 2)]],
              neighbor_distances_max := [Fin (9 / 2), Fin (9 / 2)]\<rparr>) 0"
proof -
  have ne: "(0::nat) \<noteq> 1" by simp
  have nu: "\<not> row_unchanged (two_agents (0, 0) (5, 0) 10)
       ((two_agents (0, 0) (5, 0) 10)\<lparr>neighbors := [[1], [0]],
              neighbor_distances := [[Fin (9 / 2)], [Fin (9 / 2)]],
              neighbor_distances_max := [Fin (9 / 2), Fin (9 / 2)]\<rparr>) 0"
    by (simp add: row_unchanged_def two_agents_fields)
  from neighbor_cache_invariant[OF two_agents_wf ne far_eval, of 0] nu
  show ?thesis
    using two_agents_wf far_eval by simp
qed

theorem beyond_sight_frame_witness:
  "sight_soc (two_agents (0, 0) (5, 0) 0)
     < length_v (vsub (position (two_agents (0, 0) (5, 0) 0) ! 0)
                      (position (two_agents (0, 0) (5, 0) 0) ! 1)) \<and>
   (\<exists>a'. agent_agent_interaction power_law_kernel power_law_kernel 0 1 (two_agents (0, 0) (5, 0) 0)
           = Inr a' \<and>
         force a' = force (two_agents (0, 0) (5, 0) 0) \<and>
         torque a' = torque (two_agents (0, 0) (5, 0) 0) \<and> a' = two_agents (0, 0) (5, 0) 0)"
proof -
  have far: "sight_soc (two_agents (0, 0) (5, 0) 0)
     < length_v (vsub (position (two_agents (0, 0) (5, 0) 0) ! 0)
                      (position (two_agents (0, 0) (5, 0) 0) ! 1))"
    by (simp add: two_agents_fields vsub_def length_v_axis)
  from beyond_sight_frame[OF far far_eval0] far far_eval0
  show ?thesis by (simp add: two_agents_fields)
qed

text \<open>
  Claim C4 as stated fails: two agents 5 apart with \<open>sight_soc = 3\<close> and
  \<open>neighbor_radius = 10\<close> are out of sight of each other, and the call enters each
  into the other's neighbour buffer.
\<close>

theorem beyond_sight_neighbors_counterexample:
  "sight_soc (two_agents (0, 0) (5, 0) 10)
     < length_v (vsub (position (two_agents (0, 0) (5, 0) 10) ! 0)
                      (position (two_agents (0, 0) (5, 0) 10) ! 1)) \<and>
   neighbors (two_agents (0, 0) (5, 0) 10) = [[2], [2]] \<and>
   neighbor_distances (two_agents (0, 0) (5, 0) 10) = [[PInf], [PInf]] \<and>
   neighbor_distances_max (two_agents (0, 0) (5, 0) 10) = [PInf, PInf] \<and>
   agent_agent_interaction power_law_kernel power_law_kernel 0 1 (two_agents (0, 0) (5, 0) 10)
     = Inr ((two_agents (0, 0) (5, 0) 10)\<lparr>neighbors := [[1], [0]],
              neighbor_distances := [[Fin (9 / 2)], [Fin (9 / 2)]],
              neighbor_distances_max := [Fin (9 / 2), Fin (9 / 2)]\<rparr>)"
  using far_eval by (simp add: two_agents_fields vsub_def length_v_axis)

section \<open>Adjusting after Fluctuation\<close>

lemma Adjusting_update_IndexError: "Adjusting_update torque_adjust a = Inl IndexError"
  by (simp add: Adjusting_update_def Adjusting_body_def getitem_def)

lemma two_agents_indices: "indices (two_agents p q nr) = [0, 1]"
  by (simp add: indices_def two_agents_def no_agents_def numeral_2_eq_2)

lemma two_agents_fields2:
  "size (two_agents p q nr) = 2" "active (two_agents p q nr) = [True, True]"
  "mass (two_agents p q nr) = [80, 80]" "velocity (two_agents p q nr) = [(0, 0), (0, 0)]"
  "target_velocity (two_agents p q nr) = [1, 1]"
  "target_direction (two_agents p q nr) = [(1, 0), (1, 0)]"
  "\<not> orientable (two_agents p q nr)" "force (two_agents p q nr) = [(0, 0), (0, 0)]"
  "tau_adj (two_agents p q nr) = 1 / 2"
  by (simp_all add: two_agents_def no_agents_def)

lemma fluctuation_eval:
  "Fluctuation_update (\<lambda>k. 1) (\<lambda>k. 0) (\<lambda>m s. []) (two_agents (0, 0) (5, 0) 0)
     = Inr ((two_agents (0, 0) (5, 0) 0)\<lparr>force := [(80, 0), (80, 0)]\<rparr>)"
  by (simp add: Fluctuation_update_def two_agents_indices two_agents_fields2 Let_def
      force_fluctuation_def take_at_def assign_at_def smul_def numeral_2_eq_2)

lemma adjusting_called_eval:
  "Adjusting_body (Index_array [0, 1]) (\<lambda>m t x y z w. [])
       ((two_agents (0, 0) (5, 0) 0)\<lparr>force := [(80, 0), (80, 0)]\<rparr>)
     = Inr ((two_agents (0, 0) (5, 0) 0)\<lparr>force := [(160, 0), (160, 0)]\<rparr>)"
  by (simp add: Adjusting_body_def getitem_def setitem_def two_agents_fields2 Let_def
      force_adjust_def take_at_def assign_at_def smul_def vsub_def numeral_2_eq_2)

text \<open>
  Claim C9. The Adjusting phase assigns the adjusting force, \<open>force[i] = f_adj\<close>, so
  the fluctuation force of the Fluctuation phase before it is discarded. Two active
  agents of mass 80 at rest, with the draws of magnitude 1 and angle 0: the Fluctuation
  phase writes the force \<open>(80, 0)\<close> for both. \<open>Adjusting.update\<close> then raises IndexError
  at its first subscript \<open>agent.mass[i]\<close>, because line 69 binds \<open>i\<close> to the method
  \<open>agent.indices\<close> and not to its result; it assigns nothing, and the force array still
  holds the fluctuation force. With the index array \<open>agent.indices()\<close>, which is
  \<open>[0, 1]\<close> here and which line 52 of the Fluctuation phase uses, the same lines
  assign the adjusting force \<open>(m / tau_adj) (v0 e0 - v) = (160, 0)\<close> over it.
\<close>

theorem fluctuation_force_not_discarded:
  "indices (two_agents (0, 0) (5, 0) 0) = [0, 1] \<and>
   Fluctuation_update (\<lambda>k. 1) (\<lambda>k. 0) (\<lambda>m s. []) (two_agents (0, 0) (5, 0) 0)
     = Inr ((two_agents (0, 0) (5, 0) 0)\<lparr>force := [(80, 0), (80, 0)]\<rparr>) \<and>
   Adjusting_update (\<lambda>m t x y z w. [])
       ((two_agents (0, 0) (5, 0) 0)\<lparr>force := [(80, 0), (80, 0)]\<rparr>)
     = Inl IndexError \<and>
   Adjusting_body (Index_array [0, 1]) (\<lambda>m t x y z w. [])
       ((two_agents (0, 0) (5, 0) 0)\<lparr>force := [(80, 0), (80, 0)]\<rparr>)
     = Inr ((two_agents (0, 0) (5, 0) 0)\<lparr>force := [(160, 0), (160, 0)]\<rparr>)"
  using two_agents_indices[of "(0, 0)" "(5, 0)" 0] fluctuation_eval adjusting_called_eval
    Adjusting_update_IndexError[of "\<lambda>m t x y z w. []"]
  by simp

section \<open>Random placement\<close>

lemma dot_vsub_right: "dot a (vsub b c) = dot a b - dot a c"
  by (simp add: dot_def vsub_def algebra_simps)

lemma length_v_power2: "(length_v w)\<^sup>2 = fst w * fst w + snd w * snd w"
  using length_v_square[of w] by (simp add: power2_eq_square)

lemma length_v_swap: "length_v (snd d, fst d) = length_v d"
  by (simp add: length_v_def add.commute)

lemma unit_decompose:
  assumes "dot t t = 1"
  shows "(length_v w)\<^sup>2 = (dot t w)\<^sup>2 + (dot (rotate90 t) w)\<^sup>2"
proof -
  have "(dot t w)\<^sup>2 + (dot (rotate90 t) w)\<^sup>2
      = (fst t * fst t + snd t * snd t) * (fst w * fst w + snd w * snd w)"
    by (simp add: dot_def rotate90_def power2_eq_square algebra_simps)
  also have "\<dots> = fst w * fst w + snd w * snd w"
    using assms by (simp add: dot_def)
  finally show ?thesis by (simp add: length_v_power2)
qed

lemma unit_tangent:
  assumes "d \<noteq> vzero"
  shows "dot (vdivs d (length_v d)) (vdivs d (length_v d)) = 1"
proof -
  have nz: "length_v d \<noteq> 0" using assms by (simp add: length_v_eq_0_iff)
  have "dot (vdivs d (length_v d)) (vdivs d (length_v d))
      = (fst d * fst d + snd d * snd d) / (length_v d * length_v d)"
    by (simp add: dot_def vdivs_def add_divide_distrib)
  also have "\<dots> = 1" using nz by (simp add: length_v_square[symmetric])
  finally show ?thesis .
qed

lemma length_v_le_by_squares:
  assumes "(length_v a)\<^sup>2 \<le> (length_v b)\<^sup>2"
  shows "length_v a \<le> length_v b"
  using assms length_v_nonneg[of b] by (rule power2_le_imp_le)

lemma segment_distance_bound:
  fixes p0 p1 x y :: vec
  assumes d: "vsub p1 p0 \<noteq> vzero" and y: "on_segment p0 p1 y"
  defines "l_w \<equiv> length_v (vsub p1 p0)"
  defines "t \<equiv> vdivs (vsub p1 p0) (length_v (vsub p1 p0))"
  defines "l_t \<equiv> - dot t (vsub x p1) - dot t (vsub x p0)"
  shows "(if l_t > l_w then length_v (vsub x p0)
          else if l_t < - l_w then length_v (vsub x p1)
          else \<bar>dot (rotate90 t) (vsub x p0)\<bar>) \<le> length_v (vsub x y)"
proof -
  from y obtain s where s: "0 \<le> s" "s \<le> 1" and ys: "y = vadd p0 (smul s (vsub p1 p0))"
    by (auto simp: on_segment_def)
  define u where "u = dot t (vsub x p0)"
  define v where "v = dot (rotate90 t) (vsub x p0)"
  have L: "0 < l_w"
    using d length_v_nonneg[of "vsub p1 p0"] by (simp add: l_w_def length_v_eq_0_iff less_le)
  have tt: "dot t t = 1" unfolding t_def by (rule unit_tangent[OF d])
  have td: "dot t (vsub p1 p0) = l_w" unfolding t_def l_w_def by (rule dot_div_self[OF d])
  have nd: "dot (rotate90 t) (vsub p1 p0) = 0" unfolding t_def by (rule dot_rotate90_self)
  have xy: "vsub x y = vsub (vsub x p0) (smul s (vsub p1 p0))"
    by (simp add: ys vsub_def vadd_def smul_def)
  have x1: "vsub x p1 = vsub (vsub x p0) (vsub p1 p0)"
    by (simp add: vsub_def)
  have ty: "dot t (vsub x y) = u - s * l_w"
    by (subst xy, subst dot_vsub_right) (simp add: dot_smul_right td u_def)
  have ny: "dot (rotate90 t) (vsub x y) = v"
    by (subst xy, subst dot_vsub_right) (simp add: dot_smul_right nd v_def)
  have t1: "dot t (vsub x p1) = u - l_w"
    by (subst x1, subst dot_vsub_right) (simp add: td u_def)
  have n1: "dot (rotate90 t) (vsub x p1) = v"
    by (subst x1, subst dot_vsub_right) (simp add: nd v_def)
  have lt: "l_t = l_w - 2 * u"
    by (simp add: l_t_def t1 u_def)
  have sqy: "(length_v (vsub x y))\<^sup>2 = (u - s * l_w)\<^sup>2 + v\<^sup>2"
    by (simp add: unit_decompose[OF tt] ty ny)
  have sq0: "(length_v (vsub x p0))\<^sup>2 = u\<^sup>2 + v\<^sup>2"
    by (simp add: unit_decompose[OF tt] u_def v_def)
  have sq1: "(length_v (vsub x p1))\<^sup>2 = (u - l_w)\<^sup>2 + v\<^sup>2"
    by (simp add: unit_decompose[OF tt] t1 n1)
  have sl: "0 \<le> s * l_w" "s * l_w \<le> l_w"
    using s L by (simp_all add: mult_left_le_one_le)
  show ?thesis
  proof (cases "l_t > l_w")
    case True
    then have "u < 0" using lt by simp
    then have "\<bar>u\<bar> \<le> \<bar>u - s * l_w\<bar>" using sl by simp
    then have "u\<^sup>2 \<le> (u - s * l_w)\<^sup>2" by (simp only: abs_le_square_iff)
    then have "length_v (vsub x p0) \<le> length_v (vsub x y)"
      by (intro length_v_le_by_squares) (simp add: sq0 sqy)
    with True show ?thesis by simp
  next
    case nt: False
    show ?thesis
    proof (cases "l_t < - l_w")
      case True
      then have "l_w < u" using lt by simp
      then have "\<bar>u - l_w\<bar> \<le> \<bar>u - s * l_w\<bar>" using sl by simp
      then have "(u - l_w)\<^sup>2 \<le> (u - s * l_w)\<^sup>2" by (simp only: abs_le_square_iff)
      then have "length_v (vsub x p1) \<le> length_v (vsub x y)"
        by (intro length_v_le_by_squares) (simp add: sq1 sqy)
      with nt True show ?thesis by simp
    next
      case False
      have "\<bar>v\<bar>\<^sup>2 \<le> (length_v (vsub x y))\<^sup>2" by (simp add: sqy)
      then have "\<bar>v\<bar> \<le> length_v (vsub x y)"
        using length_v_nonneg by (rule power2_le_imp_le)
      with nt False show ?thesis by (simp add: v_def)
    qed
  qed
qed

lemma length_v_vsub_commute: "length_v (vsub a b) = length_v (vsub b a)"
proof -
  have "(fst a - fst b) * (fst a - fst b) = (fst b - fst a) * (fst b - fst a)"
       "(snd a - snd b) * (snd a - snd b) = (snd b - snd a) * (snd b - snd a)"
    by (simp_all add: algebra_simps)
  then show ?thesis by (simp add: length_v_def vsub_def)
qed

lemma wall_distance_defined: "j < wall_size wall \<Longrightarrow> \<exists>d. wall_distance wall j x = Inr d"
  by (cases wall) (auto simp: Let_def split: prod.splits)

lemma fold_err_wall_defined:
  assumes "\<forall>wj\<in>set l. \<exists>d. wall_distance (fst wj) (snd wj) pos = Inr d"
  shows "\<exists>b. fold_err (\<lambda>wj cond. case wall_distance (fst wj) (snd wj) pos of
                            Inl e \<Rightarrow> Inl e
                          | Inr d \<Rightarrow> Inr (cond \<and> d - rad > 0)) l c = Inr b"
  using assms
proof (induction l arbitrary: c)
  case Nil
  then show ?case by simp
next
  case (Cons wj l)
  then obtain d where "wall_distance (fst wj) (snd wj) pos = Inr d" by auto
  with Cons show ?case by simp
qed

lemma fold_err_wall_True:
  assumes "fold_err (\<lambda>wj cond. case wall_distance (fst wj) (snd wj) pos of
                            Inl e \<Rightarrow> Inl e
                          | Inr d \<Rightarrow> Inr (cond \<and> d - rad > 0)) l c = Inr True"
  shows "c \<and> (\<forall>wj\<in>set l. \<exists>d. wall_distance (fst wj) (snd wj) pos = Inr d \<and> 0 < d - rad)"
  using assms
proof (induction l arbitrary: c)
  case Nil
  then show ?case by simp
next
  case (Cons wj l)
  from Cons.prems obtain d where d: "wall_distance (fst wj) (snd wj) pos = Inr d"
    by (auto split: sum.splits)
  with Cons.prems have "fold_err (\<lambda>wj cond. case wall_distance (fst wj) (snd wj) pos of
                            Inl e \<Rightarrow> Inl e
                          | Inr d \<Rightarrow> Inr (cond \<and> d - rad > 0)) l (c \<and> d - rad > 0) = Inr True"
    by simp
  from Cons.IH[OF this] d show ?case by auto
qed

lemma wall_test_defined: "\<exists>b. wall_test walls pos rad = Inr b"
  unfolding wall_test_def
  by (rule fold_err_wall_defined) (auto simp: wall_distance_defined)

lemma wall_test_True:
  assumes "wall_test walls pos rad = Inr True" "wall \<in> set walls" "j < wall_size wall"
  shows "\<exists>d. wall_distance wall j pos = Inr d \<and> 0 < d - rad"
proof -
  have "(wall, j) \<in> set (concat (map (\<lambda>wall. map (Pair wall) [0..<wall_size wall]) walls))"
    using assms(2,3) by force
  with fold_err_wall_True[OF assms(1)[unfolded wall_test_def]] show ?thesis by fastforce
qed

lemma agent_test_nth:
  assumes "agent_test position' radius' i pos rad" "l < i" "i \<le> length position'" "i \<le> length radius'"
  shows "0 < length_v (vsub pos (position' ! l)) - (rad + radius' ! l)"
proof -
  have "l < length (zip (take i position') (take i radius'))" using assms by simp
  then have "(\<lambda>pr. length_v (vsub pos (fst pr)) - (rad + snd pr) > 0)
        (zip (take i position') (take i radius') ! l)"
    using assms(1) unfolding agent_test_def list_all_length by blast
  then show ?thesis using assms by simp
qed

lemma placed_ok_step:
  assumes ok: "placed_ok walls radius' i position'"
    and i: "i < length position'" "i < length radius'"
    and at: "i = 0 \<or> agent_test position' radius' i pos (radius' ! i)"
    and wt: "wall_test walls pos (radius' ! i) = Inr True"
  shows "placed_ok walls radius' (Suc i) (position'[i := pos])"
  unfolding placed_ok_def
proof (intro conjI allI impI ballI)
  fix k l
  assume kl: "k < Suc i" "l < Suc i" "k \<noteq> l"
  have new: "radius' ! i + radius' ! m < length_v (vsub pos (position' ! m))" if "m < i" for m
  proof -
    from at that have "agent_test position' radius' i pos (radius' ! i)" by auto
    from agent_test_nth[OF this that] i show ?thesis by simp
  qed
  show "radius' ! k + radius' ! l < length_v (vsub (position'[i := pos] ! k) (position'[i := pos] ! l))"
  proof (cases "k = i")
    case True
    then have "l < i" using kl by simp
    with True new[of l] i show ?thesis by simp
  next
    case False
    then have k: "k < i" using kl by simp
    show ?thesis
    proof (cases "l = i")
      case True
      with k new[of k] i show ?thesis
        by (simp add: length_v_vsub_commute[of "position' ! k" pos] add.commute)
    next
      case False
      then have "l < i" using kl by simp
      with k kl ok show ?thesis by (simp add: placed_ok_def)
    qed
  qed
next
  fix k wall j
  assume k: "k < Suc i" and w: "wall \<in> set walls" "j < wall_size wall"
  show "\<exists>d. wall_distance wall j (position'[i := pos] ! k) = Inr d \<and> 0 < d - radius' ! k"
  proof (cases "k = i")
    case True
    with wall_test_True[OF wt w] i show ?thesis by simp
  next
    case False
    then have "k < i" using k by simp
    with ok w False show ?thesis by (simp add: placed_ok_def)
  qed
qed


lemma trial_ok:
  assumes ok: "placed_ok walls radius' i ps" and i: "i < length ps"
    and len: "length ps \<le> length radius'"
  shows "\<exists>i' ps'. trial draw radius' walls k i ps = Inr (i', ps') \<and> length ps' = length ps \<and>
           i' \<le> length ps' \<and> placed_ok walls radius' i' ps'"
proof -
  let ?pos = "draw k"
  let ?rad = "radius' ! i"
  have ir: "\<not> length radius' \<le> i" using i len by simp
  show ?thesis
  proof (cases "0 < i \<and> \<not> agent_test ps radius' i ?pos ?rad")
    case True
    then have "trial draw radius' walls k i ps = Inr (i, ps)"
      using ir by (simp add: trial_def Let_def)
    then show ?thesis using ok i by simp
  next
    case at: False
    from wall_test_defined obtain b where b: "wall_test walls ?pos ?rad = Inr b" by blast
    show ?thesis
    proof (cases b)
      case False
      then have "trial draw radius' walls k i ps = Inr (i, ps)"
        using ir at b by (auto simp: trial_def Let_def)
      then show ?thesis using ok i by simp
    next
      case True
      then have eq: "trial draw radius' walls k i ps = Inr (Suc i, ps[i := ?pos])"
        using ir at b by (auto simp: trial_def Let_def)
      have "placed_ok walls radius' (Suc i) (ps[i := ?pos])"
        using ok i ir at b True by (intro placed_ok_step) auto
      then show ?thesis using eq i by simp
    qed
  qed
qed

lemma trials_ok:
  assumes "length position' \<le> length radius'"
  shows "\<exists>i ps. trials draw radius' walls position' k = Inr (i, ps) \<and>
           length ps = length position' \<and> i \<le> length ps \<and> placed_ok walls radius' i ps"
proof (induction k)
  case 0
  show ?case by (simp add: placed_ok_def)
next
  case (Suc k)
  then obtain i ps where st: "trials draw radius' walls position' k = Inr (i, ps)"
    and l: "length ps = length position'" and i: "i \<le> length ps"
    and ok: "placed_ok walls radius' i ps" by blast
  show ?case
  proof (cases "i < length ps")
    case True
    from trial_ok[OF ok True, of draw k] assms l
    obtain i' ps' where "trial draw radius' walls k i ps = Inr (i', ps')"
      "length ps' = length ps" "i' \<le> length ps'" "placed_ok walls radius' i' ps'"
      by auto
    then show ?thesis using st True l by simp
  next
    case False
    then show ?thesis using st l i ok by simp
  qed
qed

lemma trials_stable:
  assumes "trials draw radius' walls position' k = Inr (i, ps)" and "\<not> i < length ps"
  shows "trials draw radius' walls position' (k + j) = Inr (i, ps)"
  using assms by (induction j) simp_all

lemma random_position_loop_trials:
  assumes len: "length position' \<le> length radius'"
    and st: "trials draw radius' walls position' k = Inr (i, ps)" and k: "k \<le> m"
  shows "random_position_loop draw radius' walls m i k ps =
           (case trials draw radius' walls position' m of
              Inl e \<Rightarrow> Inl e
            | Inr (i', ps') \<Rightarrow> if i' < length ps' then Inl (IterationLimit m) else Inr ps')"
  using st k
proof (induction "m - k" arbitrary: k i ps)
  case 0
  then have km: "k = m" by simp
  show ?case
    using "0.prems"(1) by (subst random_position_loop.simps) (simp add: km)
next
  case (Suc n)
  then have k: "k < m" and n: "n = m - Suc k" by simp_all
  from trials_ok[OF len, of draw walls k] Suc.prems(1)
  have l: "length ps = length position'" and ok: "placed_ok walls radius' i ps" by simp_all
  show ?case
  proof (cases "i < length ps")
    case True
    from trial_ok[OF ok True, of draw k] len l
    obtain i' ps' where tr: "trial draw radius' walls k i ps = Inr (i', ps')" by auto
    then have st': "trials draw radius' walls position' (Suc k) = Inr (i', ps')"
      using Suc.prems(1) True by simp
    have "random_position_loop draw radius' walls m i k ps
        = random_position_loop draw radius' walls m i' (Suc k) ps'"
      using True k tr by (subst random_position_loop.simps) simp
    also have "\<dots> = (case trials draw radius' walls position' m of
              Inl e \<Rightarrow> Inl e
            | Inr (i', ps') \<Rightarrow> if i' < length ps' then Inl (IterationLimit m) else Inr ps')"
      using k by (intro Suc.hyps(1)[OF n st']) simp
    finally show ?thesis .
  next
    case False
    have "trials draw radius' walls position' (k + (m - k)) = Inr (i, ps)"
      by (rule trials_stable[OF Suc.prems(1) False])
    then have "trials draw radius' walls position' m = Inr (i, ps)"
      using k by simp
    then show ?thesis
      using False by (subst random_position_loop.simps) simp
  qed
qed

lemma filter_None_comprehension: "filter_None walls = [wall. Some wall \<leftarrow> walls]"
  by (induction walls) (auto simp: filter_None_def split: option.splits)

lemma filter_None_member: "wall \<in> set (filter_None walls) \<longleftrightarrow> Some wall \<in> set walls"
  by (force simp: filter_None_def)

lemma linear_row_cases:
  assumes "linear_row (p0, p1) = Inr (a, b, t, n, l)"
  shows "a = p0 \<and> b = p1 \<and> vsub p1 p0 \<noteq> vzero \<and> l = length_v (vsub p1 p0) \<and>
         t = vdivs (vsub p1 p0) (length_v (vsub p1 p0)) \<and> n = rotate90 t"
  using assms
  by (auto simp: linear_row_def Let_def length_v_swap vdiv_def length_v_eq_0_iff
      split: if_splits)

lemma linear_wall_clear:
  assumes c: "linear_row (fst row, fst (snd row)) = Inr row"
    and j: "j < length rows" "rows ! j = row"
    and d: "wall_distance (LinearWall rows) j x = Inr dd" "0 < dd - rad"
    and y: "on_segment (fst row) (fst (snd row)) y"
  shows "rad < length_v (vsub x y)"
proof -
  obtain p0 p1 t n l where row: "row = (p0, p1, t, n, l)" by (cases row) auto
  from c have lr: "linear_row (p0, p1) = Inr (p0, p1, t, n, l)" by (simp add: row)
  from linear_row_cases[OF lr]
  have nz: "vsub p1 p0 \<noteq> vzero" and l: "l = length_v (vsub p1 p0)"
    and t: "t = vdivs (vsub p1 p0) (length_v (vsub p1 p0))" and n: "n = rotate90 t"
    by simp_all
  from y have y': "on_segment p0 p1 y" by (simp add: row)
  have "dd = (if - dot t (vsub x p1) - dot t (vsub x p0) > l then length_v (vsub x p0)
          else if - dot t (vsub x p1) - dot t (vsub x p0) < - l then length_v (vsub x p1)
          else \<bar>dot n (vsub x p0)\<bar>)"
    using d(1) j by (simp add: row Let_def split: if_splits)
  also have "\<dots> \<le> length_v (vsub x y)"
    unfolding l t n by (rule segment_distance_bound[OF nz y'])
  finally show ?thesis using d(2) by simp
qed

lemma clear_of_placed:
  assumes ok: "placed_ok (filter_None walls) radius' n ps"
    and c: "\<forall>wall. Some wall \<in> set walls \<longrightarrow> constructed wall"
    and k: "k < n" and w: "w \<in> set walls"
  shows "clear_of w (ps ! k) (radius' ! k)"
proof (cases w)
  case None
  then show ?thesis by simp
next
  case (Some wall)
  then have m: "wall \<in> set (filter_None walls)" and cw: "constructed wall"
    using w c by (simp_all add: filter_None_member)
  have dist: "\<exists>d. wall_distance wall j (ps ! k) = Inr d \<and> 0 < d - radius' ! k"
    if "j < wall_size wall" for j
    using ok k m that unfolding placed_ok_def by blast
  show ?thesis
  proof (cases wall)
    case (RoundWall rows)
    have "radius' ! k + snd row < length_v (vsub (ps ! k) (fst row))" if "row \<in> set rows" for row
    proof -
      from that obtain j where j: "j < length rows" "rows ! j = row"
        by (auto simp: in_set_conv_nth)
      from dist[of j] j RoundWall show ?thesis
        by (auto simp: Let_def split: prod.splits)
    qed
    then show ?thesis by (simp add: Some RoundWall)
  next
    case (LinearWall rows)
    have "radius' ! k < length_v (vsub (ps ! k) y)"
      if "row \<in> set rows" "on_segment (fst row) (fst (snd row)) y" for row y
    proof -
      from that obtain j where j: "j < length rows" "rows ! j = row"
        by (auto simp: in_set_conv_nth)
      from cw LinearWall that have lr: "linear_row (fst row, fst (snd row)) = Inr row"
        by (simp add: constructed_def list_all_iff)
      from dist[of j] j LinearWall obtain dd where
        "wall_distance (LinearWall rows) j (ps ! k) = Inr dd" "0 < dd - radius' ! k"
        by auto
      then show ?thesis by (rule linear_wall_clear[OF lr j _ _ that(2)])
    qed
    then show ?thesis by (simp add: Some LinearWall)
  qed
qed

text \<open>
  Claim C8. \<open>random_position\<close>, given a radius for every slot and walls that were built
  by their classes, makes at most \<open>100 N\<close> Monte-Carlo trials (\<open>N\<close> the number of slots).
  It raises the exception exactly when the first \<open>100 N\<close> trials have filled fewer than
  \<open>N\<close> slots; otherwise it returns the positions that these trials have placed. Of the
  placed disks, the centres of any two are farther apart than the sum of their radii,
  and every disk is clear of every wall: farther than its radius from every round
  obstacle and from every point of every wall segment. The loop is a total function:
  one of the two always happens, whatever the random source proposes.
\<close>

theorem random_position_raises_or_places:
  assumes "length position' \<le> length radius'"
    and "\<forall>wall. Some wall \<in> set walls \<longrightarrow> constructed wall"
  shows "\<exists>i ps. trials draw radius' [wall. Some wall \<leftarrow> walls] position' (100 * length position')
                  = Inr (i, ps) \<and>
           (i < length position' \<and>
              random_position draw position' radius' walls
                = Inl (IterationLimit (100 * length position')) \<or>
            i = length position' \<and>
              random_position draw position' radius' walls = Inr ps \<and>
              length ps = length position' \<and>
              (\<forall>k<length ps. \<forall>l<length ps. k \<noteq> l \<longrightarrow>
                 radius' ! k + radius' ! l < length_v (vsub (ps ! k) (ps ! l))) \<and>
              (\<forall>k<length ps. \<forall>w\<in>set walls. clear_of w (ps ! k) (radius' ! k)))"
proof -
  let ?walls = "filter_None walls"
  let ?m = "100 * length position'"
  from trials_ok[OF assms(1), of draw ?walls ?m]
  obtain i ps where st: "trials draw radius' ?walls position' ?m = Inr (i, ps)"
    and l: "length ps = length position'" and i: "i \<le> length ps"
    and ok: "placed_ok ?walls radius' i ps" by blast
  have "random_position draw position' radius' walls
      = random_position_loop draw radius' ?walls ?m 0 0 position'"
    by (simp add: random_position_def Let_def)
  also have "\<dots> = (case trials draw radius' ?walls position' ?m of
              Inl e \<Rightarrow> Inl e
            | Inr (i', ps') \<Rightarrow> if i' < length ps' then Inl (IterationLimit ?m) else Inr ps')"
    by (rule random_position_loop_trials[OF assms(1)]) simp_all
  finally have r: "random_position draw position' radius' walls
      = (if i < length ps then Inl (IterationLimit ?m) else Inr ps)"
    by (simp add: st)
  have st': "trials draw radius' [wall. Some wall \<leftarrow> walls] position' ?m = Inr (i, ps)"
    using st by (simp only: filter_None_comprehension)
  show ?thesis
  proof (cases "i < length ps")
    case True
    then show ?thesis using st' r l by simp
  next
    case False
    then have il: "i = length ps" using i by simp
    have a: "\<forall>k<length ps. \<forall>l<length ps. k \<noteq> l \<longrightarrow>
                 radius' ! k + radius' ! l < length_v (vsub (ps ! k) (ps ! l))"
      using ok unfolding placed_ok_def il by blast
    have b: "\<forall>k<length ps. \<forall>w\<in>set walls. clear_of w (ps ! k) (radius' ! k)"
      using clear_of_placed[OF ok[unfolded il] assms(2)] by blast
    show ?thesis
      using st' r l il a b by (intro exI[of _ i] exI[of _ ps]) simp
  qed
qed

lemma two_walls_constructed: "\<forall>wall. Some wall \<in> set two_walls \<longrightarrow> constructed wall"
  by (auto simp: two_walls_def obstacle_def floor_wall_def constructed_def linear_row_def Let_def
      vsub_def length_v_def vdiv_def vdivs_def rotate90_def)

lemma five_draws_eval:
  "random_position five_draws [(9, 9), (9, 9)] [1 / 4, 1 / 4] two_walls = Inr [(0, 0), (0, 1)]"
  by (simp add: random_position_def filter_None_def two_walls_def obstacle_def floor_wall_def
      Let_def random_position_loop.simps trial_def five_draws_def agent_test_def wall_test_def
      vsub_def length_v_def dot_def)

lemma five_draws_trials:
  "trials five_draws [1 / 4, 1 / 4] [obstacle, floor_wall] [(9, 9), (9, 9)] 2
     = Inr (0, [(9, 9), (9, 9)])"
  "trials five_draws [1 / 4, 1 / 4] [obstacle, floor_wall] [(9, 9), (9, 9)] 3
     = Inr (1, [(0, 0), (9, 9)])"
  "trials five_draws [1 / 4, 1 / 4] [obstacle, floor_wall] [(9, 9), (9, 9)] 4
     = Inr (1, [(0, 0), (9, 9)])"
  "trials five_draws [1 / 4, 1 / 4] [obstacle, floor_wall] [(9, 9), (9, 9)] 5
     = Inr (2, [(0, 0), (0, 1)])"
  by (simp_all add: eval_nat_numeral obstacle_def floor_wall_def
      Let_def trial_def five_draws_def agent_test_def wall_test_def
      vsub_def length_v_def dot_def)

theorem random_position_raises_or_places_witness:
  "length [(9, 9), (9, 9) :: vec] \<le> length [1 / 4, 1 / 4 :: real] \<and>
   constructed obstacle \<and> constructed floor_wall \<and>
   trials five_draws [1 / 4, 1 / 4] [obstacle, floor_wall] [(9, 9), (9, 9)] 2
     = Inr (0, [(9, 9), (9, 9)]) \<and>
   trials five_draws [1 / 4, 1 / 4] [obstacle, floor_wall] [(9, 9), (9, 9)] 200
     = Inr (2, [(0, 0), (0, 1)]) \<and>
   random_position five_draws [(9, 9), (9, 9)] [1 / 4, 1 / 4] two_walls = Inr [(0, 0), (0, 1)] \<and>
   1 / 4 + 1 / 4 < length_v (vsub (0, 0) (0, 1)) \<and>
   clear_of (Some obstacle) (0, 1) (1 / 4) \<and>
   clear_of (Some floor_wall) (0, 0) (1 / 4)"
proof -
  have l: "length [(9, 9), (9, 9) :: vec] \<le> length [1 / 4, 1 / 4 :: real]" by simp
  have c: "constructed obstacle" "constructed floor_wall"
    using two_walls_constructed by (simp_all add: two_walls_def)
  from random_position_raises_or_places[OF l two_walls_constructed, of five_draws]
  obtain i ps where
    st: "trials five_draws [1 / 4, 1 / 4] [wall. Some wall \<leftarrow> two_walls] [(9, 9), (9, 9)] 200
           = Inr (i, ps)"
    and r: "i < 2 \<and> random_position five_draws [(9, 9), (9, 9)] [1 / 4, 1 / 4] two_walls
                = Inl (IterationLimit 200) \<or>
            i = 2 \<and> random_position five_draws [(9, 9), (9, 9)] [1 / 4, 1 / 4] two_walls = Inr ps \<and>
              length ps = 2 \<and>
              (\<forall>k<length ps. \<forall>l<length ps. k \<noteq> l \<longrightarrow>
                 [1 / 4, 1 / 4] ! k + [1 / 4, 1 / 4] ! l < length_v (vsub (ps ! k) (ps ! l))) \<and>
              (\<forall>k<length ps. \<forall>w\<in>set two_walls. clear_of w (ps ! k) ([1 / 4, 1 / 4] ! k))"
    by auto
  from r five_draws_eval have i: "i = 2" and ps: "ps = [(0, 0), (0, 1)]"
    and a: "\<forall>k<2. \<forall>l<2. k \<noteq> l \<longrightarrow>
                 [1 / 4, 1 / 4 :: real] ! k + [1 / 4, 1 / 4] ! l < length_v (vsub (ps ! k) (ps ! l))"
    and b: "\<forall>k<2. \<forall>w\<in>set two_walls. clear_of w (ps ! k) ([1 / 4, 1 / 4] ! k)"
    by auto
  from a[rule_format, of 0 1] have a': "1 / 4 + 1 / 4 < length_v (vsub (0, 0) (0, 1 :: real))"
    by (simp add: ps)
  from b[rule_format, of 1 "Some obstacle"] have b1: "clear_of (Some obstacle) (0, 1) (1 / 4)"
    by (simp add: ps two_walls_def)
  from b[rule_format, of 0 "Some floor_wall"] have b2: "clear_of (Some floor_wall) (0, 0) (1 / 4)"
    by (simp add: ps two_walls_def)
  have st': "trials five_draws [1 / 4, 1 / 4] [obstacle, floor_wall] [(9, 9), (9, 9)] 200
     = Inr (2, [(0, 0), (0, 1)])"
    using st by (simp add: two_walls_def i ps)
  show ?thesis
    using l c five_draws_trials(1) st' five_draws_eval a' b1 b2 by simp
qed

lemma random_position_loop_rejected:
  assumes "\<And>k. iterations \<le> k \<Longrightarrow> k < n \<Longrightarrow> wall_test walls (draw k) (radius' ! 0) = Inr False"
    and "0 < length position'" and "0 < length radius'"
    and "iterations \<le> n" and "n \<le> max_iterations"
  shows "random_position_loop draw radius' walls max_iterations 0 iterations position'
           = random_position_loop draw radius' walls max_iterations 0 n position'"
  using assms(1,4)
proof (induction "n - iterations" arbitrary: iterations)
  case 0
  then show ?case by simp
next
  case (Suc m)
  then have lt: "iterations < n" and m: "m = n - Suc iterations" by simp_all
  have w: "wall_test walls (draw iterations) (radius' ! 0) = Inr False"
    using Suc.prems(1)[of iterations] lt by simp
  have "random_position_loop draw radius' walls max_iterations 0 iterations position'
      = random_position_loop draw radius' walls max_iterations 0 (Suc iterations) position'"
    using assms(2,3,5) lt w by (subst random_position_loop.simps) (simp add: trial_def Let_def)
  also have "\<dots> = random_position_loop draw radius' walls max_iterations 0 n position'"
    using lt Suc.prems(1) by (intro Suc.hyps(1)[OF m]) simp_all
  finally show ?case .
qed

text \<open>
  The limit is exact. With one slot, so with the limit 100: a source that proposes the
  centre of the obstacle in the trials 0 to 98 and a free place in trial 99 places the
  disk in the last trial that is allowed; a source that proposes the centre of the
  obstacle in the trials 0 to 99 raises, although trial 100 would have placed the disk.
\<close>

lemma random_position_places_at_limit:
  "random_position (\<lambda>k. if k < 99 then (0, 5) else (0, 0)) [(9, 9)] [1 / 4] two_walls
     = Inr [(0, 0)]"
proof -
  let ?draw = "\<lambda>k::nat. if k < 99 then (0, 5) else (0, 0) :: vec"
  have "random_position_loop ?draw [1 / 4] (filter_None two_walls) 100 0 0 [(9, 9)]
      = random_position_loop ?draw [1 / 4] (filter_None two_walls) 100 0 99 [(9, 9)]"
    by (rule random_position_loop_rejected)
      (simp_all add: wall_test_def filter_None_def two_walls_def obstacle_def floor_wall_def
        vsub_def length_v_def dot_def)
  also have "\<dots> = Inr [(0, 0)]"
    by (simp add: random_position_loop.simps trial_def wall_test_def filter_None_def two_walls_def
        obstacle_def floor_wall_def vsub_def length_v_def dot_def Let_def)
  finally show ?thesis by (simp add: random_position_def Let_def)
qed

lemma random_position_raises_at_limit:
  "random_position (\<lambda>k. if k < 100 then (0, 5) else (0, 0)) [(9, 9)] [1 / 4] two_walls
     = Inl (IterationLimit 100)"
proof -
  let ?draw = "\<lambda>k::nat. if k < 100 then (0, 5) else (0, 0) :: vec"
  have "random_position_loop ?draw [1 / 4] (filter_None two_walls) 100 0 0 [(9, 9)]
      = random_position_loop ?draw [1 / 4] (filter_None two_walls) 100 0 100 [(9, 9)]"
    by (rule random_position_loop_rejected)
      (simp_all add: wall_test_def filter_None_def two_walls_def obstacle_def floor_wall_def
        vsub_def length_v_def dot_def)
  also have "\<dots> = Inl (IterationLimit 100)"
    by (simp add: random_position_loop.simps)
  finally show ?thesis by (simp add: random_position_def Let_def)
qed

end
